theory Spec2Isabelle
  imports Main "HOL-Library.AList" "HOL-Library.Sublist"
begin

chapter \<open>The tool invocation and orchestration engine of the agent notebooks\<close>

text \<open>
  The notebooks of the repository define, lesson by lesson, the classes
  \<^verbatim>\<open>ChatMessageMemory\<close>, \<^verbatim>\<open>AgentTool\<close>, \<^verbatim>\<open>AgentToolExecutor\<close> and \<^verbatim>\<open>Agent\<close>,
  the decorator \<^verbatim>\<open>Tool\<close> and the helper \<^verbatim>\<open>parse_nested_json\<close>. This theory embeds
  them as HOL functions. Python objects that are mutated become values that are passed in
  and returned; every \<^verbatim>\<open>raise\<close> becomes an \<open>Inl\<close> result; the language-model
  client and the bodies of the wrapped tool functions are parameters, since they are the
  external collaborators of the engine. Calls of \<^verbatim>\<open>print\<close> and of the logger have no
  effect on the engine and are left out, also where the source is quoted.

  Text is modelled as \<open>string\<close>, that is as a list of 8-bit characters, read as code
  points below 256. The model is exact for ASCII text, which covers every literal of the
  notebooks; a code point that Python would take out of that range (the upper case of a few
  Latin-1 letters, an escape \<^verbatim>\<open>\uXXXX\<close> above \<^verbatim>\<open>00FF\<close>) is not represented.
\<close>

section \<open>Python string operations used by the notebooks\<close>

definition dquote :: char where
  "dquote = CHR 0x22"

definition bslash :: char where
  "bslash = CHR 0x5C"

definition newline :: char where
  "newline = CHR 0x0A"

text \<open>A text between double quotes, for writing JSON texts.\<close>

definition q :: "string \<Rightarrow> string" where
  "q s = dquote # s @ [dquote]"

text \<open>
  \<^verbatim>\<open>str.replace(old, new)\<close>: the occurrences of \<open>old\<close> are found from left to right and
  do not overlap. The notebooks only pass non-empty literals for \<open>old\<close>.
\<close>

fun replace :: "string \<Rightarrow> string \<Rightarrow> string \<Rightarrow> string" where
  "replace old new [] = []"
| "replace old new (c # cs) =
     (if old \<noteq> [] \<and> prefix old (c # cs)
      then new @ replace old new (drop (length old - 1) cs)
      else c # replace old new cs)"







text \<open>The substring test \<^verbatim>\<open>sub in s\<close>.\<close>

fun contains :: "string \<Rightarrow> string \<Rightarrow> bool" where
  "contains sub [] = (sub = [])"
| "contains sub (c # cs) = (prefix sub (c # cs) \<or> contains sub cs)"

text \<open>
  \<^verbatim>\<open>s.split(sep)\<close> for a non-empty separator; \<open>cur\<close> collects the current piece in
  reverse. The result is never empty, so \<^verbatim>\<open>s.split(sep)[-1]\<close> is its \<open>last\<close> element.
\<close>

fun split_from :: "string \<Rightarrow> string \<Rightarrow> string \<Rightarrow> string list" where
  "split_from sep cur [] = [rev cur]"
| "split_from sep cur (c # cs) =
     (if sep \<noteq> [] \<and> prefix sep (c # cs)
      then rev cur # split_from sep [] (drop (length sep - 1) cs)
      else split_from sep (c # cur) cs)"

definition split :: "string \<Rightarrow> string \<Rightarrow> string list" where
  "split s sep = split_from sep [] s"


text \<open>Decimal rendering of an integer, as the formatting of an \<^verbatim>\<open>int\<close> in an f-string.\<close>

fun string_of_nat :: "nat \<Rightarrow> string" where
  "string_of_nat n =
     (if n < 10 then [char_of (48 + n)]
      else string_of_nat (n div 10) @ [char_of (48 + n mod 10)])"

definition string_of_int :: "int \<Rightarrow> string" where
  "string_of_int i = (if i < 0 then CHR ''-'' # string_of_nat (nat (- i)) else string_of_nat (nat i))"

section \<open>The recursive brace pattern\<close>

text \<open>
  Both \<^verbatim>\<open>parse_nested_json\<close> and the text-prompt \<^verbatim>\<open>Agent.parse_response\<close> search the
  text with
  \<^verbatim>\<open>regex.compile(r'\{(?:[^{}]|(?R))*\}')\<close>.
  A match of the pattern at a position starts with an opening brace, continues with
  characters other than braces or with nested matches, and ends with the closing brace that
  brings the nesting depth back to zero. \<open>balanced_rest d cs\<close> scans the text after an
  opening brace, \<open>d\<close> being the number of further braces that are open; it yields the
  matched text, or \<open>None\<close> when the text ends before the first brace is closed.
  \<^verbatim>\<open>pattern.search\<close> tries the positions from left to right.
\<close>

fun balanced_rest :: "nat \<Rightarrow> string \<Rightarrow> string option" where
  "balanced_rest d [] = None"
| "balanced_rest d (c # cs) =
     (if c = CHR ''{'' then map_option ((#) c) (balanced_rest (Suc d) cs)
      else if c = CHR ''}'' then
        (case d of 0 \<Rightarrow> Some [c] | Suc d' \<Rightarrow> map_option ((#) c) (balanced_rest d' cs))
      else map_option ((#) c) (balanced_rest d cs))"

fun match_at :: "string \<Rightarrow> string option" where
  "match_at [] = None"
| "match_at (c # cs) =
     (if c = CHR ''{'' then map_option ((#) c) (balanced_rest 0 cs) else None)"

fun regex_search :: "string \<Rightarrow> string option" where
  "regex_search [] = None"
| "regex_search (c # cs) =
     (case match_at (c # cs) of Some m \<Rightarrow> Some m | None \<Rightarrow> regex_search cs)"

text \<open>
  The language of the pattern itself, as a grammar: a brace, a sequence of items, a brace,
  where an item is a single character that is no brace or again a word of the language.
  It is used below to state that \<open>match_at\<close> computes the matches of the pattern.
\<close>

inductive brace_word :: "string \<Rightarrow> bool" and brace_items :: "string \<Rightarrow> bool" where
  word: "brace_items b \<Longrightarrow> brace_word (CHR ''{'' # b @ ''}'')"
| items_nil: "brace_items []"
| items_char: "c \<noteq> CHR ''{'' \<Longrightarrow> c \<noteq> CHR ''}'' \<Longrightarrow> brace_items b \<Longrightarrow> brace_items (c # b)"
| items_word: "brace_word w \<Longrightarrow> brace_items b \<Longrightarrow> brace_items (w @ b)"

text \<open>
  What \<open>balanced_rest d\<close> is to find: items and a closing brace, \<open>d + 1\<close> times.
\<close>

fun closes :: "nat \<Rightarrow> string \<Rightarrow> bool" where
  "closes 0 m = (\<exists>b. brace_items b \<and> m = b @ ''}'')"
| "closes (Suc d) m = (\<exists>b m'. brace_items b \<and> m = b @ ''}'' @ m' \<and> closes d m')"

section \<open>JSON values, \<^verbatim>\<open>json.loads\<close> and \<^verbatim>\<open>json.dumps\<close>\<close>

text \<open>
  The values that \<^verbatim>\<open>json.loads\<close> produces. An object is a Python \<^verbatim>\<open>dict\<close>: an
  association list in insertion order with unique keys. A number with a fraction or an
  exponent (and \<^verbatim>\<open>NaN\<close>, \<^verbatim>\<open>Infinity\<close>) is kept as its literal text: floating point
  values are not interpreted.
\<close>

datatype json =
    JNull
  | JBool bool
  | JInt int
  | JFloat string
  | JString string
  | JArray "json list"
  | JObject "(string \<times> json) list"

datatype token = TLBrace | TRBrace | TLBracket | TRBracket | TColon | TComma | TAtom json

definition is_digit :: "char \<Rightarrow> bool" where
  "is_digit c = (48 \<le> (of_char c :: nat) \<and> (of_char c :: nat) \<le> 57)"

definition digits_val :: "string \<Rightarrow> nat" where
  "digits_val ds = foldl (\<lambda>a c. 10 * a + (of_char c - 48)) 0 ds"

definition hex_val :: "char \<Rightarrow> nat option" where
  "hex_val c =
     (let n = (of_char c :: nat)
      in if 48 \<le> n \<and> n \<le> 57 then Some (n - 48)
         else if 97 \<le> n \<and> n \<le> 102 then Some (n - 87)
         else if 65 \<le> n \<and> n \<le> 70 then Some (n - 55)
         else None)"

definition backslash_escape :: "char \<Rightarrow> char option" where
  "backslash_escape e =
     (if e = dquote then Some dquote
      else if e = bslash then Some bslash
      else if e = CHR ''/'' then Some (CHR ''/'')
      else if e = CHR ''b'' then Some (CHR 0x08)
      else if e = CHR ''f'' then Some (CHR 0x0C)
      else if e = CHR ''n'' then Some (CHR 0x0A)
      else if e = CHR ''r'' then Some (CHR 0x0D)
      else if e = CHR ''t'' then Some (CHR 0x09)
      else None)"

text \<open>
  A string literal after its opening quote: the decoded text and the input after the
  closing quote. Control characters are rejected (the decoder is strict); the escape
  \<^verbatim>\<open>\uXXXX\<close> needs four hexadecimal digits, and its code point is kept modulo 256:
  an escape above \<^verbatim>\<open>00FF\<close> decodes to another character than in Python, while the text
  is accepted or rejected as Python accepts or rejects it.
\<close>

datatype smode = Plain | Escaped | Hex nat nat

fun scan_string :: "smode \<Rightarrow> string \<Rightarrow> string \<Rightarrow> (string \<times> string) option" where
  "scan_string m acc [] = None"
| "scan_string Plain acc (c # cs) =
     (if c = dquote then Some (rev acc, cs)
      else if c = bslash then scan_string Escaped acc cs
      else if (of_char c :: nat) < 32 then None
      else scan_string Plain (c # acc) cs)"
| "scan_string Escaped acc (c # cs) =
     (if c = CHR ''u'' then scan_string (Hex 4 0) acc cs
      else (case backslash_escape c of
              None \<Rightarrow> None
            | Some x \<Rightarrow> scan_string Plain (x # acc) cs))"
| "scan_string (Hex k v) acc (c # cs) =
     (case hex_val c of
        None \<Rightarrow> None
      | Some h \<Rightarrow>
          (if k \<le> 1 then scan_string Plain (char_of (16 * v + h) # acc) cs
           else scan_string (Hex (k - 1) (16 * v + h)) acc cs))"

text \<open>
  A number, by the decoder's pattern
  \<^verbatim>\<open>(-?(?:0|[1-9]\d*))(\.\d+)?([eE][-+]?\d+)?\<close>:
  the fraction and the exponent are taken only when they are complete.
\<close>

definition scan_number :: "string \<Rightarrow> (json \<times> string) option" where
  "scan_number s =
     (let neg = (case s of [] \<Rightarrow> False | c # _ \<Rightarrow> c = CHR ''-'');
          s1 = (if neg then tl s else s);
          ds = takeWhile is_digit s1
      in if ds = [] then None
         else
           (let ip = (if hd ds = CHR ''0'' then ''0'' else ds);
                s2 = drop (length ip) s1;
                fd = (case s2 of [] \<Rightarrow> [] | c # r \<Rightarrow>
                        if c = CHR ''.'' then takeWhile is_digit r else []);
                frac = (if fd = [] then [] else CHR ''.'' # fd);
                s3 = drop (length frac) s2;
                ex = (case s3 of [] \<Rightarrow> [] | e # r \<Rightarrow>
                        if e = CHR ''e'' \<or> e = CHR ''E'' then
                          (let sg = (case r of [] \<Rightarrow> [] | c # _ \<Rightarrow>
                                       if c = CHR ''+'' \<or> c = CHR ''-'' then [c] else []);
                               ed = takeWhile is_digit (drop (length sg) r)
                           in if ed = [] then [] else e # sg @ ed)
                        else []);
                s4 = drop (length ex) s3
            in if frac = [] \<and> ex = []
               then Some (JInt ((if neg then - 1 else 1) * int (digits_val ip)), s4)
               else Some (JFloat ((if neg then ''-'' else '''') @ ip @ frac @ ex), s4)))"

definition json_ws :: "char \<Rightarrow> bool" where
  "json_ws c = (c = CHR '' '' \<or> c = CHR 0x09 \<or> c = CHR 0x0A \<or> c = CHR 0x0D)"

definition scan_atom :: "string \<Rightarrow> (json \<times> string) option" where
  "scan_atom s =
     (if prefix ''null'' s then Some (JNull, drop 4 s)
      else if prefix ''true'' s then Some (JBool True, drop 4 s)
      else if prefix ''false'' s then Some (JBool False, drop 5 s)
      else (case scan_number s of
              Some r \<Rightarrow> Some r
            | None \<Rightarrow>
                if prefix ''NaN'' s then Some (JFloat ''NaN'', drop 3 s)
                else if prefix ''Infinity'' s then Some (JFloat ''Infinity'', drop 8 s)
                else if prefix ''-Infinity'' s then Some (JFloat ''-Infinity'', drop 9 s)
                else None))"

fun cons_token :: "token \<Rightarrow> token list option \<Rightarrow> token list option" where
  "cons_token t None = None"
| "cons_token t (Some ts) = Some (t # ts)"

text \<open>
  The tokens of a text. The first argument is the number of characters still to be skipped
  because they belong to the token that was scanned last.
\<close>

fun tokenize :: "nat \<Rightarrow> string \<Rightarrow> token list option" where
  "tokenize k [] = Some []"
| "tokenize (Suc k) (c # cs) = tokenize k cs"
| "tokenize 0 (c # cs) =
     (if json_ws c then tokenize 0 cs
      else if c = CHR ''{'' then cons_token TLBrace (tokenize 0 cs)
      else if c = CHR ''}'' then cons_token TRBrace (tokenize 0 cs)
      else if c = CHR ''['' then cons_token TLBracket (tokenize 0 cs)
      else if c = CHR '']'' then cons_token TRBracket (tokenize 0 cs)
      else if c = CHR '':'' then cons_token TColon (tokenize 0 cs)
      else if c = CHR '','' then cons_token TComma (tokenize 0 cs)
      else if c = dquote then
        (case scan_string Plain [] cs of
           None \<Rightarrow> None
         | Some (v, r) \<Rightarrow> cons_token (TAtom (JString v)) (tokenize (length cs - length r) cs))
      else
        (case scan_atom (c # cs) of
           None \<Rightarrow> None
         | Some (v, r) \<Rightarrow> cons_token (TAtom v) (tokenize (length cs - length r) cs)))"

text \<open>
  The grammar of values over the tokens, as a pushdown automaton: the stack holds the
  containers that are open, the state says what may come next. A key that occurs twice in
  an object keeps its first position and takes the last value, as in a \<^verbatim>\<open>dict\<close>.
\<close>

datatype frame =
    FArr "json list"
  | FObj "(string \<times> json) list"
  | FKey "(string \<times> json) list" string

datatype pstate = PValue | PArrStart | PObjStart | PKey | PColon | PAfter | PDone json

fun put_value :: "json \<Rightarrow> frame list \<Rightarrow> (pstate \<times> frame list) option" where
  "put_value v [] = Some (PDone v, [])"
| "put_value v (FArr es # st) = Some (PAfter, FArr (es @ [v]) # st)"
| "put_value v (FKey ps k # st) = Some (PAfter, FObj (AList.update k v ps) # st)"
| "put_value v (FObj ps # st) = None"

fun value_token :: "token \<Rightarrow> frame list \<Rightarrow> (pstate \<times> frame list) option" where
  "value_token (TAtom v) st = put_value v st"
| "value_token TLBracket st = Some (PArrStart, FArr [] # st)"
| "value_token TLBrace st = Some (PObjStart, FObj [] # st)"
| "value_token t st = None"

fun key_token :: "token \<Rightarrow> frame list \<Rightarrow> (pstate \<times> frame list) option" where
  "key_token (TAtom (JString k)) (FObj ps # st) = Some (PColon, FKey ps k # st)"
| "key_token t st = None"

fun parse_step :: "pstate \<Rightarrow> frame list \<Rightarrow> token \<Rightarrow> (pstate \<times> frame list) option" where
  "parse_step PValue st t = value_token t st"
| "parse_step PArrStart (FArr es # st) TRBracket = put_value (JArray es) st"
| "parse_step PArrStart st t = value_token t st"
| "parse_step PObjStart (FObj ps # st) TRBrace = put_value (JObject ps) st"
| "parse_step PObjStart st t = key_token t st"
| "parse_step PKey st t = key_token t st"
| "parse_step PColon st TColon = Some (PValue, st)"
| "parse_step PAfter (FArr es # st) TComma = Some (PValue, FArr es # st)"
| "parse_step PAfter (FArr es # st) TRBracket = put_value (JArray es) st"
| "parse_step PAfter (FObj ps # st) TComma = Some (PKey, FObj ps # st)"
| "parse_step PAfter (FObj ps # st) TRBrace = put_value (JObject ps) st"
| "parse_step p st t = None"

fun parse_tokens :: "pstate \<Rightarrow> frame list \<Rightarrow> token list \<Rightarrow> json option" where
  "parse_tokens (PDone v) st [] = Some v"
| "parse_tokens p st [] = None"
| "parse_tokens p st (t # ts) =
     (case parse_step p st t of
        None \<Rightarrow> None
      | Some (p', st') \<Rightarrow> parse_tokens p' st' ts)"

text \<open>\<^verbatim>\<open>json.loads(s)\<close>; \<open>None\<close> stands for \<^verbatim>\<open>json.JSONDecodeError\<close>.\<close>

definition json_loads :: "string \<Rightarrow> json option" where
  "json_loads s =
     (case tokenize 0 s of
        None \<Rightarrow> None
      | Some ts \<Rightarrow> parse_tokens PValue [] ts)"





section \<open>Exceptions\<close>

text \<open>
  The exceptions that the modelled code raises or lets through. Apart from
  \<^verbatim>\<open>ValidationError\<close> (pydantic), \<^verbatim>\<open>JSONDecodeError\<close> and the built-in errors, the
  notebooks raise \<^verbatim>\<open>ValueError\<close> only; its message is kept as a constructor per
  format string, and the exception that caused it (\<^verbatim>\<open>from e\<close>, or the exception being
  handled) is kept with it. \<open>Raised\<close> is any other exception of a collaborator.
\<close>

datatype field_error = Missing string | String_type string | Json_invalid | Model_type

datatype err_msg =
    Already_registered string
  | Not_found string
  | Error_validating string
  | Error_executing string
  | Argument_validation_failed string
  | Error_during_execution string
  | Execution_error_in_tool string
  | Must_have_docstring string
  | Invalid_JSON_in_action_content

datatype exn =
    ValidationError "field_error list"
  | JSONDecodeError
  | KeyError string
  | TypeError string
  | AttributeError string
  | ValueError err_msg "exn option"
  | Raised string

section \<open>Messages and the observable world\<close>

text \<open>
  A message of the conversation is a Python \<^verbatim>\<open>dict\<close> with a role and a content, the
  \<^verbatim>\<open>dict\<close> of a tool result, or the \<^verbatim>\<open>ChatCompletionMessage\<close> object that the client
  returned (its \<^verbatim>\<open>content\<close> and its \<^verbatim>\<open>tool_calls\<close>, either of which may be \<^verbatim>\<open>None\<close>).
\<close>

datatype tool_call =
  Tool_call (call_id: string) (call_name: string) (call_arguments: string)

datatype response =
  Response (content: "string option") (tool_calls: "tool_call list option")

datatype message =
    Dict_msg string string
  | Tool_msg string string string
  | Response_msg response

text \<open>
  The world outside the engine: a log of the calls that reached a collaborator (the
  language-model client, the body of a wrapped function) and the collaborators' own state
  \<open>'x\<close>, about which nothing is assumed.
\<close>

datatype event = LM_call "message list" | Invoked string "string list"

type_synonym 'x world = "event list \<times> 'x"

fun is_LM_call :: "event \<Rightarrow> bool" where
  "is_LM_call (LM_call h) = True"
| "is_LM_call (Invoked f vs) = False"

definition lm_calls :: "'x world \<Rightarrow> nat" where
  "lm_calls w = length (filter is_LM_call (fst w))"

text \<open>The message lists that the language model was called with, in the order of the calls.\<close>

fun call_history :: "event \<Rightarrow> message list list" where
  "call_history (LM_call h) = [h]"
| "call_history (Invoked f vs) = []"

definition lm_histories :: "'x world \<Rightarrow> message list list" where
  "lm_histories w = concat (map call_history (fst w))"


section \<open>Argument models\<close>

text \<open>
  The pydantic models of the notebooks (\<^verbatim>\<open>GetWeatherSchema\<close>, \<^verbatim>\<open>JumpSchema\<close>) are
  classes with a docstring and required fields of type \<^verbatim>\<open>str\<close>, each with a description.
  Validation of such a model: every field must be present and must be a string; keys that
  are no field are ignored. The validated model holds the fields in their declared order,
  which is what \<^verbatim>\<open>model_dump()\<close> returns. \<open>model_doc\<close> is the description that
  pydantic puts into the JSON schema of the model: the docstring of the class, cleaned by
  \<^verbatim>\<open>inspect.cleandoc\<close>, or nothing when the class has none.
\<close>

record field_info =
  field_name :: string
  field_description :: string

record args_model =
  model_doc :: "string option"
  model_fields :: "field_info list"

definition check_field :: "(string \<times> json) list \<Rightarrow> field_info \<Rightarrow> field_error list" where
  "check_field data f =
     (case map_of data (field_name f) of
        None \<Rightarrow> [Missing (field_name f)]
      | Some (JString s) \<Rightarrow> []
      | Some _ \<Rightarrow> [String_type (field_name f)])"

definition dump_field :: "(string \<times> json) list \<Rightarrow> field_info \<Rightarrow> (string \<times> string) option" where
  "dump_field data f =
     (case map_of data (field_name f) of
        Some (JString s) \<Rightarrow> Some (field_name f, s)
      | _ \<Rightarrow> None)"

text \<open>\<^verbatim>\<open>args_model(**data)\<close>\<close>

definition model_validate :: "args_model \<Rightarrow> (string \<times> json) list \<Rightarrow> exn + (string \<times> string) list" where
  "model_validate m data =
     (let errs = concat (map (check_field data) (model_fields m))
      in if errs = [] then Inr (List.map_filter (dump_field data) (model_fields m))
         else Inl (ValidationError errs))"

text \<open>
  \<^verbatim>\<open>args_model.model_validate_json(json_string)\<close>. Pydantic reads the text with a JSON
  parser of its own; it is taken to accept the texts that \<^verbatim>\<open>json.loads\<close> accepts.
\<close>

definition model_validate_json :: "args_model \<Rightarrow> string \<Rightarrow> exn + (string \<times> string) list" where
  "model_validate_json m s =
     (case json_loads s of
        None \<Rightarrow> Inl (ValidationError [Json_invalid])
      | Some (JObject data) \<Rightarrow> model_validate m data
      | Some _ \<Rightarrow> Inl (ValidationError [Model_type]))"

section \<open>Wrapped functions and \<^verbatim>\<open>AgentTool\<close>\<close>

text \<open>
  A Python function: its \<^verbatim>\<open>__name__\<close>, its \<^verbatim>\<open>__doc__\<close>, the names of its parameters
  and its body. The body receives the values of the parameters in their order, may change
  the state of the outside world and returns or raises. Calling the function with keyword
  arguments binds them by name; a missing or an unexpected keyword is a \<^verbatim>\<open>TypeError\<close>,
  raised before the body runs. A body that runs is logged.
\<close>

record 'x py_function =
  fn_name :: string
  fn_doc :: "string option"
  fn_params :: "string list"
  fn_impl :: "string list \<Rightarrow> 'x \<Rightarrow> (exn + string) \<times> 'x"

definition py_call :: "'x py_function \<Rightarrow> (string \<times> string) list \<Rightarrow> 'x world \<Rightarrow> (exn + string) \<times> 'x world" where
  "py_call f kwargs w =
     (if list_all (\<lambda>p. p \<in> set (map fst kwargs)) (fn_params f)
         \<and> list_all (\<lambda>k. k \<in> set (fn_params f)) (map fst kwargs)
      then
        (let vs = List.map_filter (map_of kwargs) (fn_params f);
             (r, x') = fn_impl f vs (snd w)
         in (r, (fst w @ [Invoked (fn_name f) vs], x')))
      else (Inl (TypeError ''arguments do not match the signature''), w))"

text \<open>
  \<^verbatim>\<open>
  class AgentTool:
      def __init__(self, func: Callable, args_model: Type[BaseModel]):
          self.func = func
          self.args_model = args_model
          self.name = func.__name__
          self.description = func.__doc__ or self.args_schema.get('description', '')
  \<close>
  \<^verbatim>\<open>args_schema\<close> is the JSON schema of the model, whose \<^verbatim>\<open>description\<close> is the
  docstring of the model class when it has one.
\<close>

record 'x agent_tool =
  func :: "'x py_function"
  tool_args_model :: args_model
  name :: string
  description :: string

definition schema_description :: "args_model \<Rightarrow> string" where
  "schema_description m = (case model_doc m of None \<Rightarrow> [] | Some d \<Rightarrow> d)"

definition has_docstring :: "'x py_function \<Rightarrow> bool" where
  "has_docstring f = (case fn_doc f of None \<Rightarrow> False | Some d \<Rightarrow> d \<noteq> [])"

definition AgentTool_init :: "'x py_function \<Rightarrow> args_model \<Rightarrow> 'x agent_tool" where
  "AgentTool_init f m =
     \<lparr> func = f,
       tool_args_model = m,
       name = fn_name f,
       description = (case fn_doc f of
                        None \<Rightarrow> schema_description m
                      | Some d \<Rightarrow> if d \<noteq> [] then d else schema_description m) \<rparr>"

text \<open>
  \<^verbatim>\<open>
  def check_docstring(func: Callable):
      if not func.__doc__:
          raise ValueError(f"Function '{func.__name__}' must have a docstring.")

  def Tool(func: Optional[Callable] = None, *, args_model: Type[BaseModel]) -> AgentTool:
      def decorator(f: Callable) -> AgentTool:
          check_docstring(f)
          return AgentTool(f, args_model=args_model)
      return decorator(func) if func else decorator
  \<close>
\<close>

definition check_docstring :: "'x py_function \<Rightarrow> exn + unit" where
  "check_docstring f =
     (if \<not> has_docstring f then Inl (ValueError (Must_have_docstring (fn_name f)) None)
      else Inr ())"

definition Tool :: "'x py_function \<Rightarrow> args_model \<Rightarrow> exn + 'x agent_tool" where
  "Tool f m =
     (case check_docstring f of
        Inl e \<Rightarrow> Inl e
      | Inr u \<Rightarrow> Inr (AgentTool_init f m))"

text \<open>
  \<^verbatim>\<open>
      def to_openai_function_call_definition(self) -> dict:
          schema_dict = self.args_schema
          description = schema_dict.pop("description", "")
          return {"type": "function",
                  "function": {"name": self.name, "description": description,
                               "parameters": schema_dict}}
  \<close>
\<close>

datatype function_def = Function_def string string "field_info list"

definition to_openai_function_call_definition :: "'x agent_tool \<Rightarrow> function_def" where
  "to_openai_function_call_definition t =
     Function_def (name t) (schema_description (tool_args_model t)) (model_fields (tool_args_model t))"

text \<open>
  \<^verbatim>\<open>
      def validate_json_args(self, json_string: str) -> bool:
          try:
              validated_args = self.args_model.model_validate_json(json_string)
              return isinstance(validated_args, self.args_model)
          except ValidationError:
              return False
  \<close>
\<close>

definition validate_json_args :: "'x agent_tool \<Rightarrow> string \<Rightarrow> bool" where
  "validate_json_args t json_string =
     (case model_validate_json (tool_args_model t) json_string of
        Inr validated_args \<Rightarrow> True
      | Inl e \<Rightarrow> False)"

text \<open>
  \<^verbatim>\<open>
      def run(self, *args, **kwargs) -> Any:
          try:
              if args:
                  sig = signature(self.func)
                  arg_names = list(sig.parameters.keys())
                  kwargs.update(dict(zip(arg_names, args)))
              validated_args = self.args_model(**kwargs)
              return self.func(**validated_args.model_dump())
          except ValidationError as e:
              raise ValueError(f"Argument validation failed for tool '{self.name}': {str(e)}")
          except Exception as e:
              raise ValueError(f"An error occurred during the execution of tool '{self.name}': {str(e)}")
  \<close>
  Positional and keyword values are JSON values here.
\<close>

definition merge_args :: "'x agent_tool \<Rightarrow> json list \<Rightarrow> (string \<times> json) list \<Rightarrow> (string \<times> json) list" where
  "merge_args t args kwargs =
     (if args \<noteq> [] then AList.updates (fn_params (func t)) args kwargs else kwargs)"

definition run_error :: "'x agent_tool \<Rightarrow> exn \<Rightarrow> exn" where
  "run_error t e =
     (case e of
        ValidationError errs \<Rightarrow> ValueError (Argument_validation_failed (name t)) (Some e)
      | _ \<Rightarrow> ValueError (Error_during_execution (name t)) (Some e))"

definition AgentTool_run :: "'x agent_tool \<Rightarrow> json list \<Rightarrow> (string \<times> json) list \<Rightarrow> 'x world \<Rightarrow> (exn + string) \<times> 'x world" where
  "AgentTool_run t args kwargs w =
     (case model_validate (tool_args_model t) (merge_args t args kwargs) of
        Inl e \<Rightarrow> (Inl (run_error t e), w)
      | Inr validated_args \<Rightarrow>
          (case py_call (func t) validated_args w of
             (Inl e, w') \<Rightarrow> (Inl (run_error t e), w')
           | (Inr v, w') \<Rightarrow> (Inr v, w')))"

section \<open>\<^verbatim>\<open>AgentToolExecutor\<close>\<close>

text \<open>
  The registry \<^verbatim>\<open>self.tools: Dict[str, AgentTool]\<close> is an association list in
  insertion order.
  \<^verbatim>\<open>
      def register_tool(self, tool: AgentTool):
          if tool.name in self.tools:
              raise ValueError(f"Tool '{tool.name}' is already registered.")
          self.tools[tool.name] = tool
  \<close>
  The result is the outcome together with the registry after the call.
\<close>

type_synonym 'x tools = "(string \<times> 'x agent_tool) list"

definition register_tool :: "'x tools \<Rightarrow> 'x agent_tool \<Rightarrow> (exn + unit) \<times> 'x tools" where
  "register_tool tools t =
     (if name t \<in> set (map fst tools)
      then (Inl (ValueError (Already_registered (name t)) None), tools)
      else (Inr (), tools @ [(name t, t)]))"

text \<open>
  \<^verbatim>\<open>
      def execute(self, tool_name: str, tool_args: str) -> Any:
          tool = self.tools.get(tool_name)
          if not tool:
              raise ValueError(f"Tool '{tool_name}' not found.")
          try:
              if tool.validate_json_args(tool_args):
                  tool_args_dict = json.loads(tool_args)
                  return tool.run(**tool_args_dict)
              else:
                  raise ValueError(f"Error validating tool '{tool_name}' arguments.")
          except Exception as e:
              raise ValueError(f"Error executing tool '{tool_name}': {e}") from e
  \<close>
  In \<^verbatim>\<open>tool.run(**tool_args_dict)\<close> a key \<^verbatim>\<open>self\<close> collides with the receiver.
\<close>

definition call_run :: "'x agent_tool \<Rightarrow> json \<Rightarrow> 'x world \<Rightarrow> (exn + string) \<times> 'x world" where
  "call_run t tool_args_dict w =
     (case tool_args_dict of
        JObject d \<Rightarrow>
          (if ''self'' \<in> set (map fst d)
           then (Inl (TypeError ''got multiple values for argument self''), w)
           else AgentTool_run t [] d w)
      | _ \<Rightarrow> (Inl (TypeError ''argument after ** must be a mapping''), w))"

definition execute :: "'x tools \<Rightarrow> string \<Rightarrow> string \<Rightarrow> 'x world \<Rightarrow> (exn + string) \<times> 'x world" where
  "execute tools tool_name tool_args w =
     (case map_of tools tool_name of
        None \<Rightarrow> (Inl (ValueError (Not_found tool_name) None), w)
      | Some t \<Rightarrow>
          (case (if validate_json_args t tool_args
                 then (case json_loads tool_args of
                         None \<Rightarrow> (Inl JSONDecodeError, w)
                       | Some tool_args_dict \<Rightarrow> call_run t tool_args_dict w)
                 else (Inl (ValueError (Error_validating tool_name) None), w)) of
             (Inl e, w') \<Rightarrow> (Inl (ValueError (Error_executing tool_name) (Some e)), w')
           | (Inr v, w') \<Rightarrow> (Inr v, w')))"

definition get_tool_names :: "'x tools \<Rightarrow> string list" where
  "get_tool_names tools = map fst tools"

section \<open>The tools of the notebooks\<close>

text \<open>
  \<^verbatim>\<open>
  class GetWeatherSchema(BaseModel):
      """Get weather information based on location."""
      location: str = Field(description="Location to get weather for")

  @Tool(args_model=GetWeatherSchema)
  def get_weather(location: str) -> str:
      """Gets weather information."""
      temperature = random.randint(60, 80)
      return f"{location}: {temperature}F."
  \<close>
  The draw \<^verbatim>\<open>random.randint(60, 80)\<close> is a parameter \<open>randint\<close> acting on the outside
  state; nothing is assumed about it.
\<close>

definition GetWeatherSchema :: args_model where
  "GetWeatherSchema =
     \<lparr> model_doc = Some ''Get weather information based on location.'',
       model_fields = [\<lparr> field_name = ''location'',
                         field_description = ''Location to get weather for'' \<rparr>] \<rparr>"

definition get_weather_body :: "('x \<Rightarrow> int \<times> 'x) \<Rightarrow> string list \<Rightarrow> 'x \<Rightarrow> (exn + string) \<times> 'x" where
  "get_weather_body randint vs x =
     (case vs of
        [location] \<Rightarrow>
          (let (temperature, x') = randint x
           in (Inr (location @ '': '' @ string_of_int temperature @ ''F.''), x'))
      | _ \<Rightarrow> (Inl (TypeError ''arguments do not match the signature''), x))"

definition get_weather_function :: "('x \<Rightarrow> int \<times> 'x) \<Rightarrow> 'x py_function" where
  "get_weather_function randint =
     \<lparr> fn_name = ''get_weather'',
       fn_doc = Some ''Gets weather information.'',
       fn_params = [''location''],
       fn_impl = get_weather_body randint \<rparr>"

definition get_weather :: "('x \<Rightarrow> int \<times> 'x) \<Rightarrow> 'x agent_tool" where
  "get_weather randint = AgentTool_init (get_weather_function randint) GetWeatherSchema"

text \<open>The same function without its docstring, for the constructor of \<^verbatim>\<open>AgentTool\<close>.\<close>

definition undocumented_get_weather :: "('x \<Rightarrow> int \<times> 'x) \<Rightarrow> 'x py_function" where
  "undocumented_get_weather randint = (get_weather_function randint) \<lparr> fn_doc := None \<rparr>"

text \<open>A draw that always gives 70, as the stub tool of the weather scenario.\<close>

definition always_70 :: "unit \<Rightarrow> int \<times> unit" where
  "always_70 x = (70, x)"

definition weather_tools :: "unit tools" where
  "weather_tools = snd (register_tool [] (get_weather always_70))"

text \<open>
  The argument payloads \<^verbatim>\<open>{"location": "Paris"}\<close> and \<^verbatim>\<open>{"loc": "Paris"}\<close>.
\<close>

definition paris_args :: string where
  "paris_args = ''{'' @ q ''location'' @ '': '' @ q ''Paris'' @ ''}''"

definition loc_args :: string where
  "loc_args = ''{'' @ q ''loc'' @ '': '' @ q ''Paris'' @ ''}''"

section \<open>The agent with structured tool calls\<close>

text \<open>
  The \<^verbatim>\<open>Agent\<close> of the lesson on the tool execution loop. The client
  \<^verbatim>\<open>llm_client.generate(chat_history, tools=self.function_calls)\<close> is a parameter: from
  the messages and the tool definitions it returns a response or raises, and may change the
  outside state. \<^verbatim>\<open>memory\<close> is the list \<^verbatim>\<open>self.memory.messages\<close> of
  \<^verbatim>\<open>ChatMessageMemory\<close>, whose \<^verbatim>\<open>add_message\<close> appends and whose \<^verbatim>\<open>get_messages\<close>
  returns a copy.
\<close>

record 'x agent =
  llm_client :: "message list \<Rightarrow> function_def list option \<Rightarrow> 'x \<Rightarrow> (exn + response) \<times> 'x"
  executor :: "'x tools"
  memory :: "message list"
  system_message :: message
  max_iterations :: int
  tool_history :: "message list"
  function_calls :: "function_def list option"

text \<open>
  \<^verbatim>\<open>
      def __init__(self, llm_client, system_message, max_iterations: int = 10, tools = None):
          self.llm_client = llm_client
          self.executor = AgentToolExecutor()
          self.memory = ChatMessageMemory()
          self.system_message = system_message
          self.max_iterations = max_iterations
          self.tool_history = []
          self.function_calls = None
          if tools:
              for tool in tools:
                  self.executor.register_tool(tool)
              self.function_calls = [tool.to_openai_function_call_definition() for tool in tools]
  \<close>
\<close>

fun register_all :: "'x tools \<Rightarrow> 'x agent_tool list \<Rightarrow> exn + 'x tools" where
  "register_all tools [] = Inr tools"
| "register_all tools (t # ts) =
     (case register_tool tools t of
        (Inl e, tools') \<Rightarrow> Inl e
      | (Inr u, tools') \<Rightarrow> register_all tools' ts)"

definition Agent_init ::
  "(message list \<Rightarrow> function_def list option \<Rightarrow> 'x \<Rightarrow> (exn + response) \<times> 'x) \<Rightarrow> message \<Rightarrow> int
     \<Rightarrow> 'x agent_tool list \<Rightarrow> exn + 'x agent" where
  "Agent_init client sys_msg max_iter tools =
     (case register_all [] tools of
        Inl e \<Rightarrow> Inl e
      | Inr registered \<Rightarrow>
          Inr \<lparr> llm_client = client,
                executor = registered,
                memory = [],
                system_message = sys_msg,
                max_iterations = max_iter,
                tool_history = [],
                function_calls = (if tools = [] then None
                                  else Some (map to_openai_function_call_definition tools)) \<rparr>)"

definition generate :: "'x agent \<Rightarrow> message list \<Rightarrow> 'x world \<Rightarrow> (exn + response) \<times> 'x world" where
  "generate ag chat_history w =
     (let (r, x') = llm_client ag chat_history (function_calls ag) (snd w)
      in (r, (fst w @ [LM_call chat_history], x')))"

text \<open>
  \<^verbatim>\<open>
      def parse_response(self, response) -> bool:
          if response.tool_calls:
              self.tool_history.append(response)
              for tool in response.tool_calls:
                  tool_name = tool.function.name
                  tool_args = tool.function.arguments
                  try:
                      execution_results = self.executor.execute(tool_name, tool_args)
                      self.tool_history.append({"role": "tool", "tool_call_id": tool.id,
                          "name": tool_name, "content": str(execution_results)})
                  except Exception as e:
                      raise ValueError(f"Execution error in tool '{tool_name}': {e}") from e
              return True
          return False
  \<close>
\<close>

fun execute_tool_calls :: "'x agent \<Rightarrow> tool_call list \<Rightarrow> 'x world \<Rightarrow> (exn + unit) \<times> 'x agent \<times> 'x world" where
  "execute_tool_calls ag [] w = (Inr (), ag, w)"
| "execute_tool_calls ag (tool # rest) w =
     (case execute (executor ag) (call_name tool) (call_arguments tool) w of
        (Inl e, w') \<Rightarrow> (Inl (ValueError (Execution_error_in_tool (call_name tool)) (Some e)), ag, w')
      | (Inr execution_results, w') \<Rightarrow>
          execute_tool_calls
            (ag \<lparr> tool_history := tool_history ag
                     @ [Tool_msg (call_id tool) (call_name tool) execution_results] \<rparr>)
            rest w')"

text \<open>The tool-result messages for a list of calls and the texts of their results.\<close>

definition tool_result_msgs :: "tool_call list \<Rightarrow> string list \<Rightarrow> message list" where
  "tool_result_msgs calls results =
     map2 (\<lambda>tool r. Tool_msg (call_id tool) (call_name tool) r) calls results"

text \<open>
  The entries of one tool iteration in the tool history: the response that requested the
  tools, followed by one tool-result message for each of its calls, in the order of the
  calls.
\<close>

fun is_result_of :: "tool_call \<Rightarrow> message \<Rightarrow> bool" where
  "is_result_of tool (Tool_msg i n r) = (i = call_id tool \<and> n = call_name tool)"
| "is_result_of tool m = False"

fun is_tool_turn :: "message list \<Rightarrow> bool" where
  "is_tool_turn (Response_msg response # results) =
     (case tool_calls response of
        None \<Rightarrow> False
      | Some calls \<Rightarrow> calls \<noteq> [] \<and> list_all2 is_result_of calls results)"
| "is_tool_turn ms = False"

definition requests_tools :: "response \<Rightarrow> bool" where
  "requests_tools response =
     (case tool_calls response of None \<Rightarrow> False | Some cs \<Rightarrow> cs \<noteq> [])"

definition parse_response :: "'x agent \<Rightarrow> response \<Rightarrow> 'x world \<Rightarrow> (exn + bool) \<times> 'x agent \<times> 'x world" where
  "parse_response ag response w =
     (if requests_tools response then
        (case execute_tool_calls
                (ag \<lparr> tool_history := tool_history ag @ [Response_msg response] \<rparr>)
                (case tool_calls response of None \<Rightarrow> [] | Some cs \<Rightarrow> cs) w of
           (Inl e, ag', w') \<Rightarrow> (Inl e, ag', w')
         | (Inr u, ag', w') \<Rightarrow> (Inr True, ag', w'))
      else (Inr False, ag, w))"

text \<open>
  \<^verbatim>\<open>
      def run(self, user_message: Dict[str, str]):
          self.memory.add_message(user_message)
          for _ in range(self.max_iterations):
              chat_history = [self.system_message] + self.memory.get_messages() + self.tool_history
              response = self.llm_client.generate(chat_history, tools=self.function_calls)
              if self.parse_response(response):
                  continue
              else:
                  self.memory.add_message(response)
                  self.tool_history = []
                  return response
  \<close>
  The loop runs over the remaining number of iterations. When the \<^verbatim>\<open>for\<close> loop is
  exhausted the function body ends, so the call returns \<^verbatim>\<open>None\<close>: the outcome
  \<open>Inr None\<close>. \<open>Inr (Some response)\<close> is \<^verbatim>\<open>return response\<close>, \<open>Inl e\<close> an
  exception that leaves \<^verbatim>\<open>run\<close>.
\<close>

fun iterate :: "nat \<Rightarrow> 'x agent \<Rightarrow> 'x world \<Rightarrow> (exn + response option) \<times> 'x agent \<times> 'x world" where
  "iterate 0 ag w = (Inr None, ag, w)"
| "iterate (Suc n) ag w =
     (case generate ag (system_message ag # memory ag @ tool_history ag) w of
        (Inl e, w1) \<Rightarrow> (Inl e, ag, w1)
      | (Inr response, w1) \<Rightarrow>
          (case parse_response ag response w1 of
             (Inl e, ag2, w2) \<Rightarrow> (Inl e, ag2, w2)
           | (Inr True, ag2, w2) \<Rightarrow> iterate n ag2 w2
           | (Inr False, ag2, w2) \<Rightarrow>
               (Inr (Some response),
                ag2 \<lparr> memory := memory ag2 @ [Response_msg response], tool_history := [] \<rparr>,
                w2)))"

definition run :: "'x agent \<Rightarrow> message \<Rightarrow> 'x world \<Rightarrow> (exn + response option) \<times> 'x agent \<times> 'x world" where
  "run ag user_message w =
     iterate (nat (max_iterations ag)) (ag \<lparr> memory := memory ag @ [user_message] \<rparr>) w"

subsection \<open>Stub clients and the agents of the scenarios\<close>

definition virginia_request :: response where
  "virginia_request =
     Response None (Some [Tool_call ''call_1'' ''get_weather'' (''{'' @ [dquote] @ ''location''
        @ [dquote] @ '': '' @ [dquote] @ ''Virginia'' @ [dquote] @ ''}'')])"

definition final_text :: response where
  "final_text = Response (Some ''It is 70F in Virginia.'') None"

text \<open>A client that requests the weather tool on every turn.\<close>

definition always_tool_client :: "message list \<Rightarrow> function_def list option \<Rightarrow> unit \<Rightarrow> (exn + response) \<times> unit" where
  "always_tool_client chat_history defs x = (Inr virginia_request, x)"

text \<open>
  A client that requests the weather tool as long as the messages hold no tool result,
  and answers with the final text afterwards.
\<close>

fun is_tool_result :: "message \<Rightarrow> bool" where
  "is_tool_result (Tool_msg i n c) = True"
| "is_tool_result m = False"

definition weather_client :: "message list \<Rightarrow> function_def list option \<Rightarrow> unit \<Rightarrow> (exn + response) \<times> unit" where
  "weather_client chat_history defs x =
     (if list_ex is_tool_result chat_history then (Inr final_text, x)
      else (Inr virginia_request, x))"

definition weather_system_message :: message where
  "weather_system_message = Dict_msg ''system'' ''You are a weather assistant.''"

definition virginia_question :: message where
  "virginia_question = Dict_msg ''user'' ''What is the weather in Virginia?''"

definition new_agent ::
  "(message list \<Rightarrow> function_def list option \<Rightarrow> unit \<Rightarrow> (exn + response) \<times> unit) \<Rightarrow> int \<Rightarrow> unit agent" where
  "new_agent client max_iter =
     \<lparr> llm_client = client,
       executor = weather_tools,
       memory = [],
       system_message = weather_system_message,
       max_iterations = max_iter,
       tool_history = [],
       function_calls = Some [to_openai_function_call_definition (get_weather always_70)] \<rparr>"

definition world0 :: "unit world" where
  "world0 = ([], ())"

section \<open>The text-prompt protocol\<close>

subsection \<open>\<^verbatim>\<open>parse_nested_json\<close>\<close>

text \<open>
  \<^verbatim>\<open>
  def parse_nested_json(text):
      # Unescape backslashes
      text = text.replace('\\\\n', '\\n').replace('\\n', '\n').replace('\\\'', '\'').replace('\\\\', '\\')
      # Replace double curly braces with single curly braces
      text = text.replace('{{', '{').replace('}}', '}')
      pattern = regex.compile(r'\{(?:[^{}]|(?R))*\}') # Supports nested structures
      match = pattern.search(text)
      if match:
          try:
              return json.loads(match.group())
          except json.JSONDecodeError:
              pass
      return None  # No valid JSON found or parsing error
  \<close>
  The four replacements of the first statement, in Python string values: two backslashes
  and \<^verbatim>\<open>n\<close> become a backslash and \<^verbatim>\<open>n\<close>; a backslash and \<^verbatim>\<open>n\<close> become a line feed; a
  backslash and a quote become a quote; two backslashes become one.
\<close>

definition unescape :: "string \<Rightarrow> string" where
  "unescape text =
     replace [bslash, bslash] [bslash]
       (replace [bslash, CHR 0x27] [CHR 0x27]
          (replace [bslash, CHR ''n''] [newline]
             (replace [bslash, bslash, CHR ''n''] [bslash, CHR ''n''] text)))"

definition single_braces :: "string \<Rightarrow> string" where
  "single_braces text = replace ''}}'' ''}'' (replace ''{{'' ''{'' text)"

definition normalize_text :: "string \<Rightarrow> string" where
  "normalize_text text = single_braces (unescape text)"

definition parse_nested_json :: "string \<Rightarrow> json option" where
  "parse_nested_json text =
     (case regex_search (normalize_text text) of
        None \<Rightarrow> None
      | Some m \<Rightarrow>
          (case json_loads m of
             Some v \<Rightarrow> Some v
           | None \<Rightarrow> None))"

subsection \<open>The agent of the lesson on ReAct prompting\<close>











subsection \<open>Texts and a stub client for the text-prompt protocol\<close>

text \<open>
  \<^verbatim>\<open>Here is the result: {"name":"greet","arguments":{"person":"Roberto"}} Thanks\<close>
\<close>

definition greet_text :: string where
  "greet_text = ''Here is the result: {'' @ q ''name'' @ '':'' @ q ''greet'' @ '','' @ q ''arguments''
      @ '':{'' @ q ''person'' @ '':'' @ q ''Roberto'' @ ''}} Thanks''"

text \<open>
  The doubled-brace text, with its line breaks written as a backslash and \<^verbatim>\<open>n\<close>:
  \<^verbatim>\<open>{{\n "name": "greet",\n "arguments": "Roberto"\n}}\<close>
\<close>

definition doubled_text :: string where
  "doubled_text = ''{{'' @ [bslash] @ ''n '' @ q ''name'' @ '': '' @ q ''greet'' @ '','' @ [bslash] @ ''n ''
      @ q ''arguments'' @ '': '' @ q ''Roberto'' @ [bslash] @ ''n}}''"











chapter \<open>Properties\<close>

section \<open>The registry\<close>

lemma name_get_weather: "name (get_weather randint) = ''get_weather''"
  by (simp add: get_weather_def AgentTool_init_def get_weather_function_def)

text \<open>
  The tool and the agents of the scenarios are what the decorator and the constructor of
  the notebooks build.
\<close>

lemma get_weather_Tool:
  "Tool (get_weather_function randint) GetWeatherSchema = Inr (get_weather randint)"
  by (simp add: Tool_def check_docstring_def has_docstring_def get_weather_function_def get_weather_def)

lemma new_agent_Agent_init:
  "Agent_init client weather_system_message max_iter [get_weather always_70]
     = Inr (new_agent client max_iter)"
  by (simp add: Agent_init_def new_agent_def register_tool_def weather_tools_def name_get_weather)

lemma register_tool_map:
  "name t \<notin> set (map fst tools) \<Longrightarrow> map_of (tools @ [(name t, t)]) = (map_of tools)(name t \<mapsto> t)"
  by (induction tools) (auto simp: fun_eq_iff)

text \<open>
  C7. Registering a tool whose name is already a key of the registry raises the
  \<^verbatim>\<open>ValueError\<close> "already registered" and returns the registry as it was. Registering
  under a fresh name succeeds and maps the name to the tool; after that, registering any
  tool of the same name fails and changes nothing.
\<close>

theorem register_tool_duplicate:
  "(name t \<in> set (get_tool_names tools) \<longrightarrow>
      register_tool tools t = (Inl (ValueError (Already_registered (name t)) None), tools))
   \<and> (name t \<notin> set (get_tool_names tools) \<longrightarrow>
      fst (register_tool tools t) = Inr ()
      \<and> map_of (snd (register_tool tools t)) = (map_of tools)(name t \<mapsto> t)
      \<and> (\<forall>t'. name t' = name t \<longrightarrow>
            register_tool (snd (register_tool tools t)) t'
              = (Inl (ValueError (Already_registered (name t)) None), snd (register_tool tools t))))"
  by (simp add: register_tool_def get_tool_names_def register_tool_map del: map_of_append)

theorem register_tool_duplicate_witness:
  "name (get_weather always_70) \<notin> set (get_tool_names ([] :: unit tools))
   \<and> name (get_weather always_70) \<in> set (get_tool_names weather_tools)
   \<and> register_tool weather_tools (get_weather always_70)
       = (Inl (ValueError (Already_registered ''get_weather'') None), weather_tools)
   \<and> map_of (snd (register_tool [] (get_weather always_70))) ''get_weather'' = Some (get_weather always_70)"
  using register_tool_duplicate [of "get_weather always_70" "[]"]
        register_tool_duplicate [of "get_weather always_70" weather_tools]
  by (simp add: name_get_weather get_tool_names_def weather_tools_def register_tool_def)

section \<open>Execution of a registered tool\<close>

lemma loads_paris: "json_loads paris_args = Some (JObject [(''location'', JString ''Paris'')])"
  by code_simp

lemma loads_loc: "json_loads loc_args = Some (JObject [(''loc'', JString ''Paris'')])"
  by code_simp

lemma validate_weather_paris: "validate_json_args (get_weather randint) paris_args"
  by (simp add: validate_json_args_def model_validate_json_def loads_paris model_validate_def
      get_weather_def AgentTool_init_def GetWeatherSchema_def check_field_def)

lemma validate_weather_loc: "\<not> validate_json_args (get_weather randint) loc_args"
  by (simp add: validate_json_args_def model_validate_json_def loads_loc model_validate_def
      get_weather_def AgentTool_init_def GetWeatherSchema_def check_field_def)

lemma run_weather_location:
  "AgentTool_run (get_weather randint) [] [(''location'', JString loc)] w
     = (Inr (loc @ '': '' @ string_of_int (fst (randint (snd w))) @ ''F.''),
        (fst w @ [Invoked ''get_weather'' [loc]], snd (randint (snd w))))"
  by (simp add: AgentTool_run_def merge_args_def model_validate_def get_weather_def
      AgentTool_init_def GetWeatherSchema_def check_field_def dump_field_def List.map_filter_def
      py_call_def get_weather_function_def get_weather_body_def split: prod.splits)

text \<open>
  C8. With \<^verbatim>\<open>get_weather\<close> registered, \<^verbatim>\<open>execute("get_weather", '{"location": "Paris"}')\<close>
  returns the text of the tool for Paris, which contains \<^verbatim>\<open>Paris\<close> whatever temperature is
  drawn, and the body of the function has run once. \<^verbatim>\<open>execute("get_weather", '{"loc": "Paris"}')\<close>
  raises the \<^verbatim>\<open>ValueError\<close> "Error executing tool" that wraps the \<^verbatim>\<open>ValueError\<close>
  "Error validating tool arguments", and leaves the world as it was: the body of the wrapped
  function has not run.
\<close>

theorem execute_get_weather:
  assumes "map_of tools ''get_weather'' = Some (get_weather randint)"
  shows "execute tools ''get_weather'' paris_args w
           = (Inr (''Paris: '' @ string_of_int (fst (randint (snd w))) @ ''F.''),
              (fst w @ [Invoked ''get_weather'' [''Paris'']], snd (randint (snd w))))
         \<and> contains ''Paris'' (''Paris: '' @ string_of_int (fst (randint (snd w))) @ ''F.'')
         \<and> execute tools ''get_weather'' loc_args w
           = (Inl (ValueError (Error_executing ''get_weather'')
                     (Some (ValueError (Error_validating ''get_weather'') None))), w)"
  using assms
  by (simp add: execute_def validate_weather_paris validate_weather_loc loads_paris call_run_def
      run_weather_location)

theorem execute_get_weather_witness:
  "map_of weather_tools ''get_weather'' = Some (get_weather always_70)
   \<and> execute weather_tools ''get_weather'' paris_args world0
       = (Inr ''Paris: 70F.'', ([Invoked ''get_weather'' [''Paris'']], ()))
   \<and> execute weather_tools ''get_weather'' loc_args world0
       = (Inl (ValueError (Error_executing ''get_weather'')
                 (Some (ValueError (Error_validating ''get_weather'') None))), world0)"
proof -
  have h: "map_of weather_tools ''get_weather'' = Some (get_weather always_70)"
    by (simp add: weather_tools_def register_tool_def name_get_weather)
  have s: "string_of_int 70 = ''70''"
    by code_simp
  show ?thesis
    using h execute_get_weather [OF h, of world0]
    by (simp add: world0_def always_70_def s)
qed

section \<open>Construction of a tool\<close>

text \<open>
  C9, as amended. The decorator \<^verbatim>\<open>Tool\<close> raises the \<^verbatim>\<open>ValueError\<close> "must have a
  docstring" when the docstring of the function is missing or empty, and yields the tool,
  described by the docstring, otherwise. The constructor \<^verbatim>\<open>AgentTool\<close> itself makes no
  such check: for a function without docstring it yields a tool that is described by the
  docstring of the argument model (or by the empty text).
\<close>

theorem Tool_requires_docstring:
  "(\<not> has_docstring f \<longrightarrow>
      Tool f m = Inl (ValueError (Must_have_docstring (fn_name f)) None)
      \<and> description (AgentTool_init f m) = schema_description m)
   \<and> (has_docstring f \<longrightarrow>
      Tool f m = Inr (AgentTool_init f m)
      \<and> fn_doc f = Some (description (AgentTool_init f m)))
   \<and> name (AgentTool_init f m) = fn_name f
   \<and> func (AgentTool_init f m) = f
   \<and> tool_args_model (AgentTool_init f m) = m"
  by (simp add: Tool_def check_docstring_def has_docstring_def AgentTool_init_def
      split: option.splits)

theorem Tool_requires_docstring_witness:
  "\<not> has_docstring (undocumented_get_weather always_70)
   \<and> Tool (undocumented_get_weather always_70) GetWeatherSchema
       = Inl (ValueError (Must_have_docstring ''get_weather'') None)
   \<and> has_docstring (get_weather_function always_70)
   \<and> Tool (get_weather_function always_70) GetWeatherSchema = Inr (get_weather always_70)
   \<and> description (get_weather always_70) = ''Gets weather information.''"
  using Tool_requires_docstring [of "undocumented_get_weather always_70" GetWeatherSchema]
        Tool_requires_docstring [of "get_weather_function always_70" GetWeatherSchema]
  by (simp add: has_docstring_def undocumented_get_weather_def get_weather_function_def
      get_weather_def)

text \<open>
  The claim as stated fails for the constructor: from \<^verbatim>\<open>get_weather\<close> without its
  docstring and \<^verbatim>\<open>GetWeatherSchema\<close> it builds a tool that carries the description of
  the model, and that can be registered and executed.
\<close>

theorem AgentTool_init_undocumented_counterexample:
  "\<not> has_docstring (undocumented_get_weather always_70)
   \<and> description (AgentTool_init (undocumented_get_weather always_70) GetWeatherSchema)
       = ''Get weather information based on location.''
   \<and> execute
        (snd (register_tool [] (AgentTool_init (undocumented_get_weather always_70) GetWeatherSchema)))
        ''get_weather'' paris_args world0
       = (Inr ''Paris: 70F.'', ([Invoked ''get_weather'' [''Paris'']], ()))"
proof -
  have s: "string_of_int 70 = ''70''"
    by code_simp
  show ?thesis
    by (simp add: has_docstring_def undocumented_get_weather_def get_weather_function_def
        AgentTool_init_def GetWeatherSchema_def schema_description_def register_tool_def
        execute_def validate_json_args_def model_validate_json_def loads_paris model_validate_def
        check_field_def call_run_def AgentTool_run_def merge_args_def dump_field_def
        List.map_filter_def py_call_def get_weather_body_def always_70_def world0_def s)
qed

section \<open>Positional and keyword arguments of \<^verbatim>\<open>AgentTool.run\<close>\<close>







section \<open>The loop of the agent with structured tool calls\<close>

text \<open>Tool execution adds no call of the language model to the log.\<close>

lemma py_call_lm_calls: "lm_calls (snd (py_call f kwargs w)) = lm_calls w"
  by (simp add: py_call_def lm_calls_def Let_def split: prod.splits)

lemma AgentTool_run_lm_calls: "lm_calls (snd (AgentTool_run t args kwargs w)) = lm_calls w"
proof (cases "model_validate (tool_args_model t) (merge_args t args kwargs)")
  case (Inl e)
  then show ?thesis by (simp add: AgentTool_run_def)
next
  case (Inr validated)
  then show ?thesis
    using py_call_lm_calls [of "func t" validated w]
    by (auto simp: AgentTool_run_def split: prod.splits sum.splits)
qed

lemma call_run_lm_calls: "lm_calls (snd (call_run t d w)) = lm_calls w"
  by (cases d) (simp_all add: call_run_def AgentTool_run_lm_calls)

lemma execute_lm_calls: "lm_calls (snd (execute tools n a w)) = lm_calls w"
proof (cases "map_of tools n")
  case None
  then show ?thesis by (simp add: execute_def)
next
  case (Some t)
  show ?thesis
  proof (cases "validate_json_args t a")
    case False
    with Some show ?thesis by (simp add: execute_def)
  next
    case True
    show ?thesis
    proof (cases "json_loads a")
      case None
      with Some True show ?thesis by (simp add: execute_def)
    next
      case (Some d)
      with \<open>map_of tools n = Some t\<close> True call_run_lm_calls [of t d w] show ?thesis
        by (auto simp: execute_def split: prod.splits sum.splits)
    qed
  qed
qed

text \<open>
  What a list of tool calls and what \<^verbatim>\<open>parse_response\<close> leave untouched: the memory,
  the entries that the tool history held before, and the number of calls of the language
  model.
\<close>

lemma execute_tool_calls_frame:
  "execute_tool_calls ag cs w = (r, ag', w') \<Longrightarrow>
     memory ag' = memory ag \<and> prefix (tool_history ag) (tool_history ag') \<and> lm_calls w' = lm_calls w"
proof (induction cs arbitrary: ag w)
  case Nil
  then show ?case by simp
next
  case (Cons c cs)
  obtain r1 w1 where e: "execute (executor ag) (call_name c) (call_arguments c) w = (r1, w1)"
    by (cases "execute (executor ag) (call_name c) (call_arguments c) w")
  have l: "lm_calls w1 = lm_calls w"
    using execute_lm_calls [of "executor ag" "call_name c" "call_arguments c" w] e by simp
  show ?case
  proof (cases r1)
    case (Inl err)
    with Cons.prems e l show ?thesis by auto
  next
    case (Inr res)
    with Cons.prems e have
      "execute_tool_calls (ag \<lparr> tool_history := tool_history ag @ [Tool_msg (call_id c) (call_name c) res] \<rparr>) cs w1
         = (r, ag', w')"
      by simp
    from Cons.IH [OF this] l show ?thesis
      by (auto dest: append_prefixD)
  qed
qed

lemma execute_tool_calls_done:
  "execute_tool_calls ag cs w = (Inr u, ag', w') \<Longrightarrow>
     \<exists>results. length results = length cs
       \<and> tool_history ag' = tool_history ag @ tool_result_msgs cs results"
proof (induction cs arbitrary: ag w)
  case Nil
  then show ?case by (simp add: tool_result_msgs_def)
next
  case (Cons c cs)
  obtain r1 w1 where e: "execute (executor ag) (call_name c) (call_arguments c) w = (r1, w1)"
    by (cases "execute (executor ag) (call_name c) (call_arguments c) w")
  show ?case
  proof (cases r1)
    case (Inl err)
    with Cons.prems e show ?thesis by simp
  next
    case (Inr res)
    with Cons.prems e have
      "execute_tool_calls (ag \<lparr> tool_history := tool_history ag @ [Tool_msg (call_id c) (call_name c) res] \<rparr>) cs w1
         = (Inr u, ag', w')"
      by simp
    from Cons.IH [OF this] obtain results where
      "length results = length cs"
      "tool_history ag' = (tool_history ag @ [Tool_msg (call_id c) (call_name c) res]) @ tool_result_msgs cs results"
      by auto
    then have "length (res # results) = length (c # cs)
       \<and> tool_history ag' = tool_history ag @ tool_result_msgs (c # cs) (res # results)"
      by (simp add: tool_result_msgs_def)
    then show ?thesis by blast
  qed
qed

lemma parse_response_frame:
  "parse_response ag response w = (r, ag', w') \<Longrightarrow>
     memory ag' = memory ag \<and> prefix (tool_history ag) (tool_history ag') \<and> lm_calls w' = lm_calls w"
proof (cases "requests_tools response")
  case False
  assume "parse_response ag response w = (r, ag', w')"
  with False show ?thesis by (auto simp: parse_response_def)
next
  case True
  assume p: "parse_response ag response w = (r, ag', w')"
  obtain r1 ag1 w1 where e:
    "execute_tool_calls (ag \<lparr> tool_history := tool_history ag @ [Response_msg response] \<rparr>)
        (case tool_calls response of None \<Rightarrow> [] | Some cs \<Rightarrow> cs) w = (r1, ag1, w1)"
    by (metis prod_cases3)
  from p True e have "ag' = ag1" "w' = w1"
    by (auto simp: parse_response_def split: sum.splits)
  with execute_tool_calls_frame [OF e] show ?thesis
    by (auto dest: append_prefixD)
qed

lemma parse_response_False:
  "parse_response ag response w = (Inr False, ag', w') \<Longrightarrow> ag' = ag \<and> w' = w \<and> \<not> requests_tools response"
  by (auto simp: parse_response_def split: if_splits prod.splits sum.splits)

lemma parse_response_True:
  assumes "parse_response ag response w = (Inr True, ag', w')"
  shows "\<exists>calls results. tool_calls response = Some calls \<and> calls \<noteq> [] \<and> length results = length calls
           \<and> tool_history ag' = tool_history ag @ Response_msg response # tool_result_msgs calls results"
proof -
  from assms have rt: "requests_tools response"
    by (auto simp: parse_response_def split: if_splits)
  then obtain calls where c: "tool_calls response = Some calls" "calls \<noteq> []"
    by (auto simp: requests_tools_def split: option.splits)
  obtain r1 ag1 w1 where e:
    "execute_tool_calls (ag \<lparr> tool_history := tool_history ag @ [Response_msg response] \<rparr>) calls w = (r1, ag1, w1)"
    by (metis prod_cases3)
  from assms rt c e have r: "r1 = Inr ()" "ag' = ag1"
    by (auto simp: parse_response_def split: sum.splits)
  from e r have "execute_tool_calls (ag \<lparr> tool_history := tool_history ag @ [Response_msg response] \<rparr>) calls w
      = (Inr (), ag', w1)"
    by simp
  from execute_tool_calls_done [OF this] obtain results where
    "length results = length calls"
    "tool_history ag' = (tool_history ag @ [Response_msg response]) @ tool_result_msgs calls results"
    by auto
  with c show ?thesis by auto
qed

lemma generate_lm_calls: "lm_calls (snd (generate ag h w)) = Suc (lm_calls w)"
  by (simp add: generate_def lm_calls_def split: prod.splits)

text \<open>
  The loop, by induction on the number of iterations that remain: a returned response has
  been appended to the memory and the tool history is empty; otherwise the memory is
  unchanged and the tool history has only grown. Each iteration calls the language model
  once.
\<close>

lemma iterate_outcome:
  "iterate n ag w = (out, ag', w') \<Longrightarrow>
     (case out of
        Inr (Some response) \<Rightarrow> memory ag' = memory ag @ [Response_msg response] \<and> tool_history ag' = []
      | _ \<Rightarrow> memory ag' = memory ag \<and> prefix (tool_history ag) (tool_history ag'))
     \<and> lm_calls w' \<le> lm_calls w + n
     \<and> (out = Inr None \<longrightarrow> lm_calls w' = lm_calls w + n)"
proof (induction n arbitrary: ag w)
  case 0
  then show ?case by auto
next
  case (Suc n)
  obtain g w1 where g: "generate ag (system_message ag # memory ag @ tool_history ag) w = (g, w1)"
    by (cases "generate ag (system_message ag # memory ag @ tool_history ag) w")
  have l1: "lm_calls w1 = Suc (lm_calls w)"
    using generate_lm_calls [of ag "system_message ag # memory ag @ tool_history ag" w] g by simp
  show ?case
  proof (cases g)
    case (Inl e)
    with Suc.prems g l1 show ?thesis by auto
  next
    case (Inr response)
    obtain p ag2 w2 where p: "parse_response ag response w1 = (p, ag2, w2)"
      by (metis prod_cases3)
    note f = parse_response_frame [OF p]
    show ?thesis
    proof (cases p)
      case (Inl e)
      with Suc.prems g Inr p f l1 show ?thesis by auto
    next
      case pr: (Inr b)
      show ?thesis
      proof (cases b)
        case True
        with Suc.prems g Inr p pr have "iterate n ag2 w2 = (out, ag', w')"
          by simp
        from Suc.IH [OF this] f l1 show ?thesis
          by (auto split: sum.splits option.splits dest: prefix_order.trans)
      next
        case False
        with p pr parse_response_False [of ag response w1 ag2 w2] have "ag2 = ag" "w2 = w1"
          by auto
        with Suc.prems g Inr p pr False l1 show ?thesis by auto
      qed
    qed
  qed
qed

text \<open>
  C1, as amended. One call of \<^verbatim>\<open>run\<close> calls the language model at most
  \<^verbatim>\<open>max_iterations\<close> times, for every client and every registry (\<open>run\<close> is a total
  function of its collaborators: the recursion is on the number of iterations that remain).
  When the loop is exhausted the call returns \<^verbatim>\<open>None\<close> after exactly
  \<^verbatim>\<open>max_iterations\<close> calls of the language model, with only the user message added to
  the memory.
\<close>

theorem run_lm_calls_bounded:
  assumes "run ag user_message w = (out, ag', w')"
  shows "lm_calls w' \<le> lm_calls w + nat (max_iterations ag)
         \<and> (out = Inr None \<longrightarrow>
               lm_calls w' = lm_calls w + nat (max_iterations ag)
               \<and> memory ag' = memory ag @ [user_message])"
  using iterate_outcome [OF assms [unfolded run_def]] by auto

lemma always_tool_run:
  "fst (run (new_agent always_tool_client 3) virginia_question world0) = Inr None"
  by code_simp

theorem run_lm_calls_bounded_witness:
  "fst (run (new_agent always_tool_client 3) virginia_question world0) = Inr None
   \<and> lm_calls (snd (snd (run (new_agent always_tool_client 3) virginia_question world0))) = 3
   \<and> memory (fst (snd (run (new_agent always_tool_client 3) virginia_question world0)))
       = [virginia_question]"
proof -
  let ?r = "run (new_agent always_tool_client 3) virginia_question world0"
  have "?r = (Inr None, fst (snd ?r), snd (snd ?r))"
    using always_tool_run by (metis prod.collapse)
  from run_lm_calls_bounded [OF this] always_tool_run show ?thesis
    by (simp add: new_agent_def world0_def lm_calls_def)
qed

text \<open>
  With three iterations and a client that requests a tool on every turn, the call returns
  \<^verbatim>\<open>None\<close>, the value of a function body that ends without \<^verbatim>\<open>return\<close>: no exception
  is raised and no result reports that the budget is exhausted. The three requests and their
  results stay in the tool history.
\<close>

theorem run_exhaustion_counterexample:
  "fst (run (new_agent always_tool_client 3) virginia_question world0) = Inr None
   \<and> tool_history (fst (snd (run (new_agent always_tool_client 3) virginia_question world0)))
       = [Response_msg virginia_request, Tool_msg ''call_1'' ''get_weather'' ''Virginia: 70F.'',
          Response_msg virginia_request, Tool_msg ''call_1'' ''get_weather'' ''Virginia: 70F.'',
          Response_msg virginia_request, Tool_msg ''call_1'' ''get_weather'' ''Virginia: 70F.'']"
  by code_simp

section \<open>The weather scenario\<close>

text \<open>
  C2, as amended. In the weather scenario \<^verbatim>\<open>run\<close> returns the final response with the
  text \<^verbatim>\<open>It is 70F in Virginia.\<close> The memory then holds exactly two messages, the user
  message and the final response. The tool request and the tool result
  \<^verbatim>\<open>Virginia: 70F.\<close> were kept in the tool history, were sent to the language model with
  the second call, and the tool history is empty when \<^verbatim>\<open>run\<close> returns.
\<close>

theorem weather_scenario:
  "fst (run (new_agent weather_client 10) virginia_question world0) = Inr (Some final_text)
   \<and> content final_text = Some ''It is 70F in Virginia.''
   \<and> memory (fst (snd (run (new_agent weather_client 10) virginia_question world0)))
       = [virginia_question, Response_msg final_text]
   \<and> tool_history (fst (snd (run (new_agent weather_client 10) virginia_question world0))) = []
   \<and> fst (snd (snd (run (new_agent weather_client 10) virginia_question world0)))
       = [LM_call [weather_system_message, virginia_question],
          Invoked ''get_weather'' [''Virginia''],
          LM_call [weather_system_message, virginia_question, Response_msg virginia_request,
                   Tool_msg ''call_1'' ''get_weather'' ''Virginia: 70F.'']]"
  by code_simp

text \<open>The memory after the scenario is not the sequence of four turns of the claim.\<close>

theorem weather_scenario_counterexample:
  "memory (fst (snd (run (new_agent weather_client 10) virginia_question world0)))
     \<noteq> [virginia_question, Response_msg virginia_request,
         Tool_msg ''call_1'' ''get_weather'' ''Virginia: 70F.'', Response_msg final_text]
   \<and> length (memory (fst (snd (run (new_agent weather_client 10) virginia_question world0)))) = 2"
  by code_simp

section \<open>The tool history\<close>

text \<open>
  Tool execution leaves the list of the language model's calls as it is, and a list of
  tool calls only appends to the tool history: one tool-result message per call when all of
  them succeed.
\<close>

lemma py_call_lm_histories: "lm_histories (snd (py_call f kwargs w)) = lm_histories w"
  by (simp add: py_call_def lm_histories_def Let_def split: prod.splits)

lemma AgentTool_run_lm_histories: "lm_histories (snd (AgentTool_run t args kwargs w)) = lm_histories w"
proof (cases "model_validate (tool_args_model t) (merge_args t args kwargs)")
  case (Inl e)
  then show ?thesis by (simp add: AgentTool_run_def)
next
  case (Inr validated)
  then show ?thesis
    using py_call_lm_histories [of "func t" validated w]
    by (auto simp: AgentTool_run_def split: prod.splits sum.splits)
qed

lemma call_run_lm_histories: "lm_histories (snd (call_run t d w)) = lm_histories w"
  by (cases d) (simp_all add: call_run_def AgentTool_run_lm_histories)

lemma execute_lm_histories: "lm_histories (snd (execute tools n a w)) = lm_histories w"
proof (cases "map_of tools n")
  case None
  then show ?thesis by (simp add: execute_def)
next
  case (Some t)
  show ?thesis
  proof (cases "validate_json_args t a")
    case False
    with Some show ?thesis by (simp add: execute_def)
  next
    case True
    show ?thesis
    proof (cases "json_loads a")
      case None
      with Some True show ?thesis by (simp add: execute_def)
    next
      case (Some d)
      with \<open>map_of tools n = Some t\<close> True call_run_lm_histories [of t d w] show ?thesis
        by (auto simp: execute_def split: prod.splits sum.splits)
    qed
  qed
qed

lemma execute_tool_calls_appends:
  "execute_tool_calls ag cs w = (r, ag', w') \<Longrightarrow>
     \<exists>added. ag' = ag \<lparr> tool_history := tool_history ag @ added \<rparr>
        \<and> (r = Inr () \<longrightarrow> list_all2 is_result_of cs added)
        \<and> lm_histories w' = lm_histories w"
proof (induction cs arbitrary: ag w)
  case Nil
  then show ?case by auto
next
  case (Cons c cs)
  obtain r1 w1 where e: "execute (executor ag) (call_name c) (call_arguments c) w = (r1, w1)"
    by (cases "execute (executor ag) (call_name c) (call_arguments c) w")
  have l: "lm_histories w1 = lm_histories w"
    using execute_lm_histories [of "executor ag" "call_name c" "call_arguments c" w] e by simp
  show ?case
  proof (cases r1)
    case (Inl err)
    with Cons.prems e l have "ag' = ag \<lparr> tool_history := tool_history ag @ [] \<rparr>
        \<and> (r = Inr () \<longrightarrow> list_all2 is_result_of (c # cs) [])
        \<and> lm_histories w' = lm_histories w"
      by auto
    then show ?thesis by blast
  next
    case (Inr res)
    let ?m = "Tool_msg (call_id c) (call_name c) res"
    from Inr Cons.prems e have
      "execute_tool_calls (ag \<lparr> tool_history := tool_history ag @ [?m] \<rparr>) cs w1 = (r, ag', w')"
      by simp
    from Cons.IH [OF this] obtain added where a:
      "ag' = ag \<lparr> tool_history := (tool_history ag @ [?m]) @ added \<rparr>"
      "r = Inr () \<longrightarrow> list_all2 is_result_of cs added"
      "lm_histories w' = lm_histories w1"
      by auto
    then have "ag' = ag \<lparr> tool_history := tool_history ag @ (?m # added) \<rparr>
        \<and> (r = Inr () \<longrightarrow> list_all2 is_result_of (c # cs) (?m # added))
        \<and> lm_histories w' = lm_histories w"
      using l by simp
    then show ?thesis by blast
  qed
qed

lemma parse_response_appends:
  assumes "parse_response ag response w = (r, ag', w')"
  shows "lm_histories w' = lm_histories w
         \<and> (r = Inr False \<longrightarrow> ag' = ag \<and> \<not> requests_tools response)
         \<and> (r = Inr True \<longrightarrow>
               (\<exists>turn. is_tool_turn turn \<and> ag' = ag \<lparr> tool_history := tool_history ag @ turn \<rparr>))
         \<and> (\<exists>added. ag' = ag \<lparr> tool_history := tool_history ag @ added \<rparr>)"
proof (cases "requests_tools response")
  case False
  with assms have "r = Inr False" "ag' = ag" "w' = w"
    by (auto simp: parse_response_def)
  moreover have "ag = ag \<lparr> tool_history := tool_history ag @ [] \<rparr>" by simp
  ultimately show ?thesis using False by blast
next
  case True
  then obtain calls where c: "tool_calls response = Some calls" "calls \<noteq> []"
    by (auto simp: requests_tools_def split: option.splits)
  let ?ag1 = "ag \<lparr> tool_history := tool_history ag @ [Response_msg response] \<rparr>"
  obtain r1 ag1 w1 where e: "execute_tool_calls ?ag1 calls w = (r1, ag1, w1)"
    by (metis prod_cases3)
  from assms True c e have o: "ag' = ag1" "w' = w1" "r \<noteq> Inr False" "r = Inr True \<longrightarrow> r1 = Inr ()"
    by (auto simp: parse_response_def split: sum.splits)
  from execute_tool_calls_appends [OF e] obtain added where a:
    "ag1 = ?ag1 \<lparr> tool_history := tool_history ?ag1 @ added \<rparr>"
    "r1 = Inr () \<longrightarrow> list_all2 is_result_of calls added"
    "lm_histories w1 = lm_histories w"
    by blast
  from a(1) o(1) have ag': "ag' = ag \<lparr> tool_history := tool_history ag @ (Response_msg response # added) \<rparr>"
    by simp
  have "r = Inr True \<longrightarrow> is_tool_turn (Response_msg response # added)"
    using o(4) a(2) c by simp
  with ag' o a(3) show ?thesis by blast
qed

lemma generate_lm_histories:
  "lm_histories (snd (generate ag h w)) = lm_histories w @ [h]"
  by (simp add: generate_def lm_histories_def split: prod.splits)

text \<open>
  The loop, with the tool iterations it performs: every call of the language model gets
  the system message, the memory and the tool history of the start followed by the entries
  of all tool iterations before it.
\<close>

lemma iterate_accumulates:
  "iterate n ag w = (out, ag', w') \<Longrightarrow>
     \<exists>turns. list_all is_tool_turn turns
       \<and> lm_histories w' = lm_histories w
            @ map (\<lambda>k. system_message ag # memory ag @ tool_history ag @ concat (take k turns))
                [0..<(if out = Inr None then length turns else Suc (length turns))]
       \<and> (out = Inr None \<longrightarrow>
             length turns = n \<and> ag' = ag \<lparr> tool_history := tool_history ag @ concat turns \<rparr>)
       \<and> (\<forall>response. out = Inr (Some response) \<longrightarrow>
             length turns < n \<and> \<not> requests_tools response
             \<and> ag' = ag \<lparr> memory := memory ag @ [Response_msg response], tool_history := [] \<rparr>)
       \<and> (\<forall>e. out = Inl e \<longrightarrow>
             length turns < n
             \<and> (\<exists>partial. ag' = ag \<lparr> tool_history := tool_history ag @ concat turns @ partial \<rparr>))"
proof (induction n arbitrary: ag w)
  case 0
  then have "out = Inr None" "ag' = ag" "w' = w" by auto
  then have "list_all is_tool_turn []
       \<and> lm_histories w' = lm_histories w
            @ map (\<lambda>k. system_message ag # memory ag @ tool_history ag @ concat (take k []))
                [0..<(if out = Inr None then length ([] :: message list list) else Suc (length ([] :: message list list)))]
       \<and> (out = Inr None \<longrightarrow>
             length ([] :: message list list) = 0 \<and> ag' = ag \<lparr> tool_history := tool_history ag @ concat [] \<rparr>)
       \<and> (\<forall>response. out = Inr (Some response) \<longrightarrow>
             length ([] :: message list list) < 0 \<and> \<not> requests_tools response
             \<and> ag' = ag \<lparr> memory := memory ag @ [Response_msg response], tool_history := [] \<rparr>)
       \<and> (\<forall>e. out = Inl e \<longrightarrow>
             length ([] :: message list list) < 0
             \<and> (\<exists>partial. ag' = ag \<lparr> tool_history := tool_history ag @ concat [] @ partial \<rparr>))"
    by simp
  then show ?case by blast
next
  case (Suc n)
  let ?h0 = "system_message ag # memory ag @ tool_history ag"
  obtain g w1 where g: "generate ag ?h0 w = (g, w1)"
    by (cases "generate ag ?h0 w")
  have l1: "lm_histories w1 = lm_histories w @ [?h0]"
    using generate_lm_histories [of ag ?h0 w] g by simp
  show ?case
  proof (cases g)
    case (Inl e)
    with Suc.prems g have o: "out = Inl e" "ag' = ag" "w' = w1" by auto
    have "\<exists>partial. ag = ag \<lparr> tool_history := tool_history ag @ concat [] @ partial \<rparr>"
      by (rule exI [of _ "[]"]) simp
    with o l1 have "list_all is_tool_turn []
       \<and> lm_histories w' = lm_histories w
            @ map (\<lambda>k. system_message ag # memory ag @ tool_history ag @ concat (take k []))
                [0..<(if out = Inr None then length ([] :: message list list) else Suc (length ([] :: message list list)))]
       \<and> (out = Inr None \<longrightarrow>
             length ([] :: message list list) = Suc n \<and> ag' = ag \<lparr> tool_history := tool_history ag @ concat [] \<rparr>)
       \<and> (\<forall>response. out = Inr (Some response) \<longrightarrow>
             length ([] :: message list list) < Suc n \<and> \<not> requests_tools response
             \<and> ag' = ag \<lparr> memory := memory ag @ [Response_msg response], tool_history := [] \<rparr>)
       \<and> (\<forall>e. out = Inl e \<longrightarrow>
             length ([] :: message list list) < Suc n
             \<and> (\<exists>partial. ag' = ag \<lparr> tool_history := tool_history ag @ concat [] @ partial \<rparr>))"
      by auto
    then show ?thesis by blast
  next
    case (Inr response)
    obtain p ag2 w2 where p: "parse_response ag response w1 = (p, ag2, w2)"
      by (metis prod_cases3)
    note f = parse_response_appends [OF p]
    from f l1 have l2: "lm_histories w2 = lm_histories w @ [?h0]" by simp
    show ?thesis
    proof (cases p)
      case (Inl e)
      with Suc.prems g Inr p have o: "out = Inl e" "ag' = ag2" "w' = w2" by auto
      from f obtain added where "ag2 = ag \<lparr> tool_history := tool_history ag @ added \<rparr>" by blast
      then have "\<exists>partial. ag2 = ag \<lparr> tool_history := tool_history ag @ concat [] @ partial \<rparr>"
        by auto
      with o l2 have "list_all is_tool_turn []
       \<and> lm_histories w' = lm_histories w
            @ map (\<lambda>k. system_message ag # memory ag @ tool_history ag @ concat (take k []))
                [0..<(if out = Inr None then length ([] :: message list list) else Suc (length ([] :: message list list)))]
       \<and> (out = Inr None \<longrightarrow>
             length ([] :: message list list) = Suc n \<and> ag' = ag \<lparr> tool_history := tool_history ag @ concat [] \<rparr>)
       \<and> (\<forall>response. out = Inr (Some response) \<longrightarrow>
             length ([] :: message list list) < Suc n \<and> \<not> requests_tools response
             \<and> ag' = ag \<lparr> memory := memory ag @ [Response_msg response], tool_history := [] \<rparr>)
       \<and> (\<forall>e. out = Inl e \<longrightarrow>
             length ([] :: message list list) < Suc n
             \<and> (\<exists>partial. ag' = ag \<lparr> tool_history := tool_history ag @ concat [] @ partial \<rparr>))"
        by auto
      then show ?thesis by blast
    next
      case pr: (Inr b)
      show ?thesis
      proof (cases b)
        case False
        with f pr have a2: "ag2 = ag" "\<not> requests_tools response" by auto
        with Suc.prems g Inr p pr False have o: "out = Inr (Some response)"
          "ag' = ag \<lparr> memory := memory ag @ [Response_msg response], tool_history := [] \<rparr>" "w' = w2"
          by auto
        with a2 l2 have "list_all is_tool_turn []
       \<and> lm_histories w' = lm_histories w
            @ map (\<lambda>k. system_message ag # memory ag @ tool_history ag @ concat (take k []))
                [0..<(if out = Inr None then length ([] :: message list list) else Suc (length ([] :: message list list)))]
       \<and> (out = Inr None \<longrightarrow>
             length ([] :: message list list) = Suc n \<and> ag' = ag \<lparr> tool_history := tool_history ag @ concat [] \<rparr>)
       \<and> (\<forall>response. out = Inr (Some response) \<longrightarrow>
             length ([] :: message list list) < Suc n \<and> \<not> requests_tools response
             \<and> ag' = ag \<lparr> memory := memory ag @ [Response_msg response], tool_history := [] \<rparr>)
       \<and> (\<forall>e. out = Inl e \<longrightarrow>
             length ([] :: message list list) < Suc n
             \<and> (\<exists>partial. ag' = ag \<lparr> tool_history := tool_history ag @ concat [] @ partial \<rparr>))"
          by auto
        then show ?thesis by blast
      next
        case True
        with f pr obtain turn where t: "is_tool_turn turn"
          "ag2 = ag \<lparr> tool_history := tool_history ag @ turn \<rparr>"
          by auto
        from True Suc.prems g Inr p pr have "iterate n ag2 w2 = (out, ag', w')"
          by simp
        from Suc.IH [OF this] obtain turns where ih:
          "list_all is_tool_turn turns"
          "lm_histories w' = lm_histories w2
            @ map (\<lambda>k. system_message ag2 # memory ag2 @ tool_history ag2 @ concat (take k turns))
                [0..<(if out = Inr None then length turns else Suc (length turns))]"
          "out = Inr None \<longrightarrow>
             length turns = n \<and> ag' = ag2 \<lparr> tool_history := tool_history ag2 @ concat turns \<rparr>"
          "\<forall>response. out = Inr (Some response) \<longrightarrow>
             length turns < n \<and> \<not> requests_tools response
             \<and> ag' = ag2 \<lparr> memory := memory ag2 @ [Response_msg response], tool_history := [] \<rparr>"
          "\<forall>e. out = Inl e \<longrightarrow>
             length turns < n
             \<and> (\<exists>partial. ag' = ag2 \<lparr> tool_history := tool_history ag2 @ concat turns @ partial \<rparr>)"
          by blast
        let ?f = "\<lambda>k. system_message ag # memory ag @ tool_history ag @ concat (take k (turn # turns))"
        let ?m = "if out = Inr None then length turns else Suc (length turns)"
        have shift: "(\<lambda>k. system_message ag2 # memory ag2 @ tool_history ag2 @ concat (take k turns))
                       = (\<lambda>k. ?f (Suc k))"
          using t(2) by (simp add: fun_eq_iff)
        have "map ?f [0..<Suc ?m] = ?f 0 # map (\<lambda>k. ?f (Suc k)) [0..<?m]"
          by (rule map_upt_Suc)
        moreover have "?f 0 = ?h0" by simp
        ultimately have "lm_histories w' = lm_histories w @ map ?f [0..<Suc ?m]"
          using ih(2) l2 shift by simp
        moreover have "Suc ?m = (if out = Inr None then length (turn # turns) else Suc (length (turn # turns)))"
          by simp
        ultimately have h: "lm_histories w' = lm_histories w
            @ map ?f [0..<(if out = Inr None then length (turn # turns) else Suc (length (turn # turns)))]"
          by simp
        have a: "list_all is_tool_turn (turn # turns)"
          using t(1) ih(1) by simp
        have b: "out = Inr None \<longrightarrow>
             length (turn # turns) = Suc n
             \<and> ag' = ag \<lparr> tool_history := tool_history ag @ concat (turn # turns) \<rparr>"
          using ih(3) t(2) by simp
        have c: "\<forall>response. out = Inr (Some response) \<longrightarrow>
             length (turn # turns) < Suc n \<and> \<not> requests_tools response
             \<and> ag' = ag \<lparr> memory := memory ag @ [Response_msg response], tool_history := [] \<rparr>"
          using ih(4) t(2) by simp
        have d: "\<forall>e. out = Inl e \<longrightarrow>
             length (turn # turns) < Suc n
             \<and> (\<exists>partial. ag' = ag \<lparr> tool_history := tool_history ag @ concat (turn # turns) @ partial \<rparr>)"
          using ih(5) t(2) by simp
        from a h b c d show ?thesis by blast
      qed
    qed
  qed
qed

text \<open>
  C5. For every call of \<^verbatim>\<open>run\<close> there is the list \<open>turns\<close> of its tool iterations,
  each one the response that requested tools followed by one tool-result message per call.
  The call number \<open>k\<close> of the language model in this run (counted from 0) received the
  system message, the memory with the user message, and the tool history as it was at the
  start followed by the entries of the first \<open>k\<close> tool iterations: the entries accumulate
  and the buffer is not cleared between tool iterations. When the loop is exhausted, every
  iteration was a tool iteration and the tool history holds all their entries behind the
  ones it held before. When \<^verbatim>\<open>run\<close> returns a response (the final answer, which
  requests no tool), the memory has gained the user message and that response, and the tool
  history is empty. When an exception leaves \<^verbatim>\<open>run\<close>, the memory has gained the user
  message only and the tool history holds the entries of the completed tool iterations and
  what the failing iteration had appended.
\<close>

theorem tool_history_accumulates_and_clears:
  assumes "run ag user_message w = (out, ag', w')"
  shows "\<exists>turns. list_all is_tool_turn turns
       \<and> lm_histories w' = lm_histories w
            @ map (\<lambda>k. system_message ag # (memory ag @ [user_message]) @ tool_history ag
                        @ concat (take k turns))
                [0..<(if out = Inr None then length turns else Suc (length turns))]
       \<and> (out = Inr None \<longrightarrow>
             length turns = nat (max_iterations ag)
             \<and> memory ag' = memory ag @ [user_message]
             \<and> tool_history ag' = tool_history ag @ concat turns)
       \<and> (\<forall>response. out = Inr (Some response) \<longrightarrow>
             length turns < nat (max_iterations ag)
             \<and> \<not> requests_tools response
             \<and> memory ag' = memory ag @ [user_message, Response_msg response]
             \<and> tool_history ag' = [])
       \<and> (\<forall>e. out = Inl e \<longrightarrow>
             length turns < nat (max_iterations ag)
             \<and> memory ag' = memory ag @ [user_message]
             \<and> (\<exists>partial. tool_history ag' = tool_history ag @ concat turns @ partial))"
proof -
  let ?ag = "ag \<lparr> memory := memory ag @ [user_message] \<rparr>"
  from assms have "iterate (nat (max_iterations ag)) ?ag w = (out, ag', w')"
    by (simp add: run_def)
  from iterate_accumulates [OF this] obtain turns where t:
    "list_all is_tool_turn turns"
    "lm_histories w' = lm_histories w
       @ map (\<lambda>k. system_message ?ag # memory ?ag @ tool_history ?ag @ concat (take k turns))
           [0..<(if out = Inr None then length turns else Suc (length turns))]"
    "out = Inr None \<longrightarrow>
       length turns = nat (max_iterations ag)
       \<and> ag' = ?ag \<lparr> tool_history := tool_history ?ag @ concat turns \<rparr>"
    "\<forall>response. out = Inr (Some response) \<longrightarrow>
       length turns < nat (max_iterations ag) \<and> \<not> requests_tools response
       \<and> ag' = ?ag \<lparr> memory := memory ?ag @ [Response_msg response], tool_history := [] \<rparr>"
    "\<forall>e. out = Inl e \<longrightarrow>
       length turns < nat (max_iterations ag)
       \<and> (\<exists>partial. ag' = ?ag \<lparr> tool_history := tool_history ?ag @ concat turns @ partial \<rparr>)"
    by blast
  have a: "lm_histories w' = lm_histories w
            @ map (\<lambda>k. system_message ag # (memory ag @ [user_message]) @ tool_history ag
                        @ concat (take k turns))
                [0..<(if out = Inr None then length turns else Suc (length turns))]"
    using t(2) by simp
  have b: "out = Inr None \<longrightarrow>
             length turns = nat (max_iterations ag)
             \<and> memory ag' = memory ag @ [user_message]
             \<and> tool_history ag' = tool_history ag @ concat turns"
    using t(3) by auto
  have c: "\<forall>response. out = Inr (Some response) \<longrightarrow>
             length turns < nat (max_iterations ag)
             \<and> \<not> requests_tools response
             \<and> memory ag' = memory ag @ [user_message, Response_msg response]
             \<and> tool_history ag' = []"
    using t(4) by auto
  have d: "\<forall>e. out = Inl e \<longrightarrow>
             length turns < nat (max_iterations ag)
             \<and> memory ag' = memory ag @ [user_message]
             \<and> (\<exists>partial. tool_history ag' = tool_history ag @ concat turns @ partial)"
  proof (intro allI impI)
    fix e
    assume "out = Inl e"
    with t(5) obtain partial where
      "length turns < nat (max_iterations ag)"
      "ag' = ?ag \<lparr> tool_history := tool_history ?ag @ concat turns @ partial \<rparr>"
      by blast
    then have "length turns < nat (max_iterations ag)
             \<and> memory ag' = memory ag @ [user_message]
             \<and> tool_history ag' = tool_history ag @ concat turns @ partial"
      by simp
    then show "length turns < nat (max_iterations ag)
             \<and> memory ag' = memory ag @ [user_message]
             \<and> (\<exists>partial. tool_history ag' = tool_history ag @ concat turns @ partial)"
      by blast
  qed
  from t(1) a b c d show ?thesis by blast
qed

lemma weather_run:
  "fst (run (new_agent weather_client 10) virginia_question world0) = Inr (Some final_text)"
  by code_simp

lemma always_tool_values:
  "tool_history (fst (snd (run (new_agent always_tool_client 3) virginia_question world0)))
       = [Response_msg virginia_request, Tool_msg ''call_1'' ''get_weather'' ''Virginia: 70F.'',
          Response_msg virginia_request, Tool_msg ''call_1'' ''get_weather'' ''Virginia: 70F.'',
          Response_msg virginia_request, Tool_msg ''call_1'' ''get_weather'' ''Virginia: 70F.'']
   \<and> lm_histories (snd (snd (run (new_agent always_tool_client 3) virginia_question world0)))
       = [[weather_system_message, virginia_question],
          [weather_system_message, virginia_question,
           Response_msg virginia_request, Tool_msg ''call_1'' ''get_weather'' ''Virginia: 70F.''],
          [weather_system_message, virginia_question,
           Response_msg virginia_request, Tool_msg ''call_1'' ''get_weather'' ''Virginia: 70F.'',
           Response_msg virginia_request, Tool_msg ''call_1'' ''get_weather'' ''Virginia: 70F.'']]"
  by code_simp

theorem tool_history_accumulates_and_clears_witness:
  "fst (run (new_agent always_tool_client 3) virginia_question world0) = Inr None
   \<and> (\<exists>turns. list_all is_tool_turn turns \<and> length turns = 3
         \<and> tool_history (fst (snd (run (new_agent always_tool_client 3) virginia_question world0)))
             = concat turns
         \<and> lm_histories (snd (snd (run (new_agent always_tool_client 3) virginia_question world0)))
             = map (\<lambda>k. weather_system_message # virginia_question # concat (take k turns)) [0..<3])
   \<and> tool_history (fst (snd (run (new_agent always_tool_client 3) virginia_question world0)))
       = [Response_msg virginia_request, Tool_msg ''call_1'' ''get_weather'' ''Virginia: 70F.'',
          Response_msg virginia_request, Tool_msg ''call_1'' ''get_weather'' ''Virginia: 70F.'',
          Response_msg virginia_request, Tool_msg ''call_1'' ''get_weather'' ''Virginia: 70F.'']
   \<and> lm_histories (snd (snd (run (new_agent always_tool_client 3) virginia_question world0)))
       = [[weather_system_message, virginia_question],
          [weather_system_message, virginia_question,
           Response_msg virginia_request, Tool_msg ''call_1'' ''get_weather'' ''Virginia: 70F.''],
          [weather_system_message, virginia_question,
           Response_msg virginia_request, Tool_msg ''call_1'' ''get_weather'' ''Virginia: 70F.'',
           Response_msg virginia_request, Tool_msg ''call_1'' ''get_weather'' ''Virginia: 70F.'']]
   \<and> fst (run (new_agent weather_client 10) virginia_question world0) = Inr (Some final_text)
   \<and> memory (fst (snd (run (new_agent weather_client 10) virginia_question world0)))
       = [virginia_question, Response_msg final_text]
   \<and> tool_history (fst (snd (run (new_agent weather_client 10) virginia_question world0))) = []"
proof -
  let ?r = "run (new_agent always_tool_client 3) virginia_question world0"
  let ?s = "run (new_agent weather_client 10) virginia_question world0"
  have r: "?r = (Inr None, fst (snd ?r), snd (snd ?r))"
    using always_tool_run by (metis prod.collapse)
  have s: "?s = (Inr (Some final_text), fst (snd ?s), snd (snd ?s))"
    using weather_run by (metis prod.collapse)
  have w0: "lm_histories world0 = []"
    by (simp add: lm_histories_def world0_def)
  from tool_history_accumulates_and_clears [OF r] obtain turns where
    "list_all is_tool_turn turns"
    "lm_histories (snd (snd ?r)) = lm_histories world0
       @ map (\<lambda>k. system_message (new_agent always_tool_client 3)
                     # (memory (new_agent always_tool_client 3) @ [virginia_question])
                     @ tool_history (new_agent always_tool_client 3) @ concat (take k turns))
           [0..<length turns]"
    "length turns = nat (max_iterations (new_agent always_tool_client 3))"
    "tool_history (fst (snd ?r)) = tool_history (new_agent always_tool_client 3) @ concat turns"
    by auto
  then have "list_all is_tool_turn turns \<and> length turns = 3
         \<and> tool_history (fst (snd ?r)) = concat turns
         \<and> lm_histories (snd (snd ?r))
             = map (\<lambda>k. weather_system_message # virginia_question # concat (take k turns)) [0..<3]"
    by (simp add: new_agent_def w0)
  then have a: "\<exists>turns. list_all is_tool_turn turns \<and> length turns = 3
         \<and> tool_history (fst (snd ?r)) = concat turns
         \<and> lm_histories (snd (snd ?r))
             = map (\<lambda>k. weather_system_message # virginia_question # concat (take k turns)) [0..<3]"
    by blast
  from tool_history_accumulates_and_clears [OF s]
  have b: "memory (fst (snd ?s)) = [virginia_question, Response_msg final_text]
            \<and> tool_history (fst (snd ?s)) = []"
    by (auto simp: new_agent_def)
  from a b always_tool_run weather_run always_tool_values show ?thesis
    by blast
qed

section \<open>The scanner and the brace pattern\<close>

text \<open>
  \<open>match_at\<close> finds exactly the words of the pattern's grammar that begin the text, and
  \<open>regex_search\<close> returns the word at the leftmost position where there is one. First
  the scanner is sound: what it returns is a prefix of the text of the right shape.
\<close>

lemma closes_cons_item:
  "c \<noteq> CHR ''{'' \<Longrightarrow> c \<noteq> CHR ''}'' \<Longrightarrow> closes d m \<Longrightarrow> closes d (c # m)"
proof (cases d)
  case 0
  assume "c \<noteq> CHR ''{''" "c \<noteq> CHR ''}''" "closes d m"
  with 0 obtain b where "brace_items b" "m = b @ ''}''" by auto
  with \<open>c \<noteq> CHR ''{''\<close> \<open>c \<noteq> CHR ''}''\<close> have "brace_items (c # b) \<and> c # m = (c # b) @ ''}''"
    by (simp add: items_char)
  with 0 show ?thesis by (metis closes.simps(1))
next
  case (Suc d')
  assume "c \<noteq> CHR ''{''" "c \<noteq> CHR ''}''" "closes d m"
  with Suc obtain b m' where "brace_items b" "m = b @ ''}'' @ m'" "closes d' m'" by auto
  with \<open>c \<noteq> CHR ''{''\<close> \<open>c \<noteq> CHR ''}''\<close>
  have "brace_items (c # b) \<and> c # m = (c # b) @ ''}'' @ m' \<and> closes d' m'"
    by (simp add: items_char)
  with Suc show ?thesis by (metis closes.simps(2))
qed

lemma closes_open:
  assumes "closes (Suc d) m"
  shows "closes d (CHR ''{'' # m)"
proof -
  from assms obtain b m' where b: "brace_items b" "m = b @ ''}'' @ m'" "closes d m'"
    by auto
  then have w: "brace_word (CHR ''{'' # b @ ''}'')"
    by (simp add: word)
  show ?thesis
  proof (cases d)
    case 0
    with b obtain b2 where b2: "brace_items b2" "m' = b2 @ ''}''" by auto
    with w have "brace_items ((CHR ''{'' # b @ ''}'') @ b2)"
      by (intro items_word)
    moreover have "CHR ''{'' # m = ((CHR ''{'' # b @ ''}'') @ b2) @ ''}''"
      using b b2 by simp
    ultimately show ?thesis using 0 by (metis closes.simps(1))
  next
    case (Suc d')
    with b obtain b2 m2 where b2: "brace_items b2" "m' = b2 @ ''}'' @ m2" "closes d' m2" by auto
    with w have "brace_items ((CHR ''{'' # b @ ''}'') @ b2)"
      by (intro items_word)
    moreover have "CHR ''{'' # m = ((CHR ''{'' # b @ ''}'') @ b2) @ ''}'' @ m2"
      using b b2 by simp
    ultimately show ?thesis using Suc b2(3) by (metis closes.simps(2))
  qed
qed

lemma closes_close: "closes d m \<Longrightarrow> closes (Suc d) (CHR ''}'' # m)"
proof -
  assume "closes d m"
  moreover have "brace_items []" by (rule items_nil)
  moreover have "CHR ''}'' # m = [] @ ''}'' @ m" by simp
  ultimately show ?thesis by (metis closes.simps(2))
qed

lemma balanced_rest_sound:
  "balanced_rest d cs = Some m \<Longrightarrow> prefix m cs \<and> closes d m"
proof (induction cs arbitrary: d m)
  case Nil
  then show ?case by simp
next
  case (Cons c cs)
  show ?case
  proof (cases "c = CHR ''{''")
    case True
    with Cons.prems obtain m' where m': "balanced_rest (Suc d) cs = Some m'" "m = c # m'"
      by auto
    from Cons.IH [OF m'(1)] True m'(2) show ?thesis
      by (simp add: closes_open del: closes.simps)
  next
    case False
    show ?thesis
    proof (cases "c = CHR ''}''")
      case False
      with \<open>c \<noteq> CHR ''{''\<close> Cons.prems obtain m' where m': "balanced_rest d cs = Some m'" "m = c # m'"
        by auto
      from Cons.IH [OF m'(1)] False \<open>c \<noteq> CHR ''{''\<close> m'(2) show ?thesis
        by (simp add: closes_cons_item del: closes.simps)
    next
      case True
      show ?thesis
      proof (cases d)
        case 0
        with True Cons.prems have "m = ''}''" by simp
        moreover have "closes 0 ''}''"
          using items_nil by (metis append_Nil closes.simps(1))
        ultimately show ?thesis using True 0 by simp
      next
        case (Suc d')
        with True Cons.prems obtain m' where m': "balanced_rest d' cs = Some m'" "m = c # m'"
          by auto
        from Cons.IH [OF m'(1)] True Suc m'(2) show ?thesis
          by (simp add: closes_close del: closes.simps)
      qed
    qed
  qed
qed

text \<open>Then it is complete: it reads over every item and every word of the grammar.\<close>

lemma balanced_rest_items:
  shows "brace_word w \<Longrightarrow> balanced_rest d (w @ rest) = map_option ((@) w) (balanced_rest d rest)"
    and "brace_items b \<Longrightarrow> balanced_rest d (b @ rest) = map_option ((@) b) (balanced_rest d rest)"
proof (induction w and b arbitrary: d rest and d rest rule: brace_word_brace_items.inducts)
  case (word b)
  then show ?case
    by (simp add: option.map_comp comp_def)
next
  case items_nil
  then show ?case by (simp add: option.map_ident)
next
  case (items_char c b)
  then show ?case by (simp add: option.map_comp comp_def)
next
  case (items_word w b)
  then show ?case by (simp add: option.map_comp comp_def)
qed

lemma balanced_rest_complete:
  "closes d m \<Longrightarrow> balanced_rest d (m @ rest) = Some m"
proof (induction d arbitrary: m)
  case 0
  then obtain b where "brace_items b" "m = b @ ''}''" by auto
  then show ?case
    using balanced_rest_items(2) [of b 0 "''}'' @ rest"] by simp
next
  case (Suc d)
  then obtain b m' where b: "brace_items b" "m = b @ ''}'' @ m'" "closes d m'" by auto
  from Suc.IH [OF b(3)] b(1,2) show ?case
    using balanced_rest_items(2) [of b "Suc d" "''}'' @ m' @ rest"] by simp
qed

lemma match_at_brace_word:
  "match_at s = Some m \<longleftrightarrow> brace_word m \<and> prefix m s"
proof
  assume a: "match_at s = Some m"
  then obtain cs m' where s: "s = CHR ''{'' # cs" "balanced_rest 0 cs = Some m'" "m = CHR ''{'' # m'"
    by (cases s) (auto split: if_splits)
  from balanced_rest_sound [OF s(2)] obtain b where "prefix m' cs" "brace_items b" "m' = b @ ''}''"
    by auto
  with s show "brace_word m \<and> prefix m s"
    by (simp add: word)
next
  assume "brace_word m \<and> prefix m s"
  then obtain rest b where m: "s = m @ rest" "brace_items b" "m = CHR ''{'' # b @ ''}''"
    by (auto elim: brace_word.cases simp: prefix_def)
  then have "closes 0 (b @ ''}'')"
    by auto
  from balanced_rest_complete [OF this, of rest] m show "match_at s = Some m"
    by simp
qed

lemma regex_search_leftmost:
  "regex_search s = Some m \<longleftrightarrow>
     (\<exists>pre post. s = pre @ m @ post \<and> brace_word m
        \<and> (\<forall>k < length pre. match_at (drop k s) = None))"
proof (induction s)
  case Nil
  then show ?case
    by (auto elim: brace_word.cases)
next
  case (Cons c cs)
  show ?case
  proof (cases "match_at (c # cs)")
    case (Some m0)
    then have w0: "brace_word m0" "prefix m0 (c # cs)"
      using match_at_brace_word [of "c # cs" m0] by auto
    show ?thesis
    proof
      assume "regex_search (c # cs) = Some m"
      with Some have "m = m0" by simp
      with w0 obtain post where "c # cs = [] @ m @ post"
        by (auto simp: prefix_def)
      with w0 \<open>m = m0\<close> show "\<exists>pre post. c # cs = pre @ m @ post \<and> brace_word m
        \<and> (\<forall>k < length pre. match_at (drop k (c # cs)) = None)"
        by (metis length_0_conv not_less_zero list.size(3))
    next
      assume "\<exists>pre post. c # cs = pre @ m @ post \<and> brace_word m
        \<and> (\<forall>k < length pre. match_at (drop k (c # cs)) = None)"
      then obtain pre post where p: "c # cs = pre @ m @ post" "brace_word m"
        "\<forall>k < length pre. match_at (drop k (c # cs)) = None"
        by blast
      have "pre = []"
      proof (rule ccontr)
        assume "pre \<noteq> []"
        then have "0 < length pre" by simp
        with p(3) have "match_at (drop 0 (c # cs)) = None" by blast
        with Some show False by simp
      qed
      with p have "match_at (c # cs) = Some m"
        using match_at_brace_word [of "c # cs" m] by (simp add: prefix_def)
      then show "regex_search (c # cs) = Some m" by simp
    qed
  next
    case None
    show ?thesis
    proof
      assume "regex_search (c # cs) = Some m"
      with None have "regex_search cs = Some m" by simp
      with Cons.IH obtain pre post where p: "cs = pre @ m @ post" "brace_word m"
        "\<forall>k < length pre. match_at (drop k cs) = None"
        by blast
      have "\<forall>k < length (c # pre). match_at (drop k (c # cs)) = None"
      proof (intro allI impI)
        fix k
        assume "k < length (c # pre)"
        then show "match_at (drop k (c # cs)) = None"
          using None p(3) by (cases k) auto
      qed
      with p(1,2) have "c # cs = (c # pre) @ m @ post \<and> brace_word m
        \<and> (\<forall>k < length (c # pre). match_at (drop k (c # cs)) = None)"
        by simp
      then show "\<exists>pre post. c # cs = pre @ m @ post \<and> brace_word m
        \<and> (\<forall>k < length pre. match_at (drop k (c # cs)) = None)"
        by blast
    next
      assume "\<exists>pre post. c # cs = pre @ m @ post \<and> brace_word m
        \<and> (\<forall>k < length pre. match_at (drop k (c # cs)) = None)"
      then obtain pre post where p: "c # cs = pre @ m @ post" "brace_word m"
        "\<forall>k < length pre. match_at (drop k (c # cs)) = None"
        by blast
      have "pre \<noteq> []"
      proof
        assume "pre = []"
        with p have "match_at (c # cs) = Some m"
          using match_at_brace_word [of "c # cs" m] by (simp add: prefix_def)
        with None show False by simp
      qed
      then obtain pre' where pre: "pre = c # pre'"
        using p(1) by (cases pre) auto
      have "\<forall>k < length pre'. match_at (drop k cs) = None"
      proof (intro allI impI)
        fix k
        assume "k < length pre'"
        with p(3) pre have "match_at (drop (Suc k) (c # cs)) = None"
          by (metis Suc_less_eq length_Cons)
        then show "match_at (drop k cs) = None" by simp
      qed
      with p pre have "regex_search cs = Some m"
        using Cons.IH by auto
      with None show "regex_search (c # cs) = Some m" by simp
    qed
  qed
qed

section \<open>The text-prompt protocol\<close>






text \<open>
  A text without an opening brace has no match, and the replacements of the normalisation
  bring no opening brace into such a text.
\<close>

lemma regex_search_no_brace: "CHR ''{'' \<notin> set s \<Longrightarrow> regex_search s = None"
  by (induction s) auto

lemma replace_no_new_char:
  "x \<notin> set s \<Longrightarrow> x \<notin> set new \<Longrightarrow> x \<notin> set (replace old new s)"
proof (induction old new s rule: replace.induct)
  case (1 old new)
  then show ?case by simp
next
  case (2 old new c cs)
  then show ?case
    by (auto dest: in_set_dropD)
qed

lemma replace_absent:
  "x \<in> set old \<Longrightarrow> x \<notin> set s \<Longrightarrow> replace old new s = s"
proof (induction s)
  case Nil
  then show ?case by simp
next
  case (Cons c cs)
  have "\<not> prefix old (c # cs)"
  proof
    assume "prefix old (c # cs)"
    then have "set old \<subseteq> set (c # cs)"
      by (rule set_mono_prefix)
    with Cons.prems show False by auto
  qed
  with Cons show ?case by simp
qed

lemma normalize_no_brace: "CHR ''{'' \<notin> set text \<Longrightarrow> CHR ''{'' \<notin> set (normalize_text text)"
proof -
  assume a: "CHR ''{'' \<notin> set text"
  then have u: "CHR ''{'' \<notin> set (unescape text)"
    by (simp add: unescape_def replace_no_new_char bslash_def newline_def)
  then have "replace ''{{'' ''{'' (unescape text) = unescape text"
    by (intro replace_absent [of "CHR ''{''"]) simp_all
  with u show ?thesis
    by (simp add: normalize_text_def single_braces_def replace_no_new_char)
qed

lemma parse_nested_json_no_braces: "CHR ''{'' \<notin> set text \<Longrightarrow> parse_nested_json text = None"
  by (simp add: parse_nested_json_def regex_search_no_brace normalize_no_brace)
















text \<open>
  C6. On the text
  \<^verbatim>\<open>Here is the result: {"name":"greet","arguments":{"person":"Roberto"}} Thanks\<close>
  the replacement of doubled closing braces removes the brace that closes the outer
  object. The outer opening brace then has no partner, the search finds the inner object,
  and \<^verbatim>\<open>parse_nested_json\<close> returns \<^verbatim>\<open>{"person": "Roberto"}\<close>.
\<close>

theorem parse_nested_json_greet:
  "normalize_text greet_text
     = ''Here is the result: {'' @ q ''name'' @ '':'' @ q ''greet'' @ '','' @ q ''arguments''
         @ '':{'' @ q ''person'' @ '':'' @ q ''Roberto'' @ ''} Thanks''
   \<and> parse_nested_json greet_text = Some (JObject [(''person'', JString ''Roberto'')])"
  by code_simp

text \<open>
  The other two cases of the claim hold: the doubled-brace text gives the object with
  \<^verbatim>\<open>name\<close> and \<^verbatim>\<open>arguments\<close>, and a text without braces gives \<^verbatim>\<open>None\<close>
  (\<open>parse_nested_json_no_braces\<close> above).
\<close>

lemma parse_nested_json_doubled:
  "parse_nested_json doubled_text
     = Some (JObject [(''name'', JString ''greet''), (''arguments'', JString ''Roberto'')])"
  by code_simp

end
